theory Spec2Isabelle
  imports Main "HOL-Library.Sublist" "HOL-Library.AList"
begin

section \<open>Reconciling Black Duck manifests: update-manual-manifest.py\<close>

text \<open>
  A shallow embedding of the class \<open>UpdateComponents\<close> of
  \<^verbatim>\<open>blackduck/jenkins/detect-scan/update-manual-manifest.py\<close>.

  Python strings are modelled as \<open>string\<close>; the texts the script handles (version
  names, component names, UUIDs, URLs) are ASCII. A Python \<open>set\<close> of strings is a
  duplicate-free list in insertion order; Python leaves the iteration order of a set
  open, and the properties proved below do not rest on it. A Python \<open>dict\<close> with string keys
  that is only read and written by key is a map; a dict that is iterated
  (\<open>bom_comp_map\<close>, \<open>manifest\<close>) is an association list in insertion order.
\<close>

subsection \<open>Strings\<close>

definition newline :: char where
  "newline = CHR 0x0A"

definition is_digit :: "char \<Rightarrow> bool" where
  "is_digit c = (c \<in> set ''0123456789'')"

text \<open>The character class \<^verbatim>\<open>[.0-9]\<close>.\<close>

definition is_dot_digit :: "char \<Rightarrow> bool" where
  "is_dot_digit c = (c = CHR ''.'' \<or> is_digit c)"

text \<open>\<^verbatim>\<open>str.lower()\<close> on ASCII text.\<close>

definition lower_char :: "char \<Rightarrow> char" where
  "lower_char c =
     (case map_of (zip ''ABCDEFGHIJKLMNOPQRSTUVWXYZ'' ''abcdefghijklmnopqrstuvwxyz'') c of
        None \<Rightarrow> c
      | Some l \<Rightarrow> l)"

definition lower :: "string \<Rightarrow> string" where
  "lower s = map lower_char s"

text \<open>\<^verbatim>\<open>sub in s\<close> for strings: \<open>sub\<close> occurs in \<open>s\<close> as a contiguous piece.\<close>

fun is_substring :: "string \<Rightarrow> string \<Rightarrow> bool" where
  "is_substring sub [] = (sub = [])"
| "is_substring sub (c # cs) = (prefix sub (c # cs) \<or> is_substring sub cs)"

text \<open>
  The format specification \<^verbatim>\<open>>04\<close> (and \<^verbatim>\<open>>02\<close>) applied to a string: right-aligned
  in the given width, filled with the character 0.
\<close>

definition rjust0 :: "nat \<Rightarrow> string \<Rightarrow> string" where
  "rjust0 w s = replicate (w - length s) (CHR ''0'') @ s"

text \<open>\<^verbatim>\<open>str(int(s))\<close> for a string of decimal digits: leading zeros are dropped.\<close>

definition int_str :: "string \<Rightarrow> string" where
  "int_str s = (let r = dropWhile (\<lambda>c. c = CHR ''0'') s in if r = [] then ''0'' else r)"

text \<open>\<^verbatim>\<open>set.add\<close> on the list model of a set.\<close>

definition set_add :: "'a \<Rightarrow> 'a list \<Rightarrow> 'a list" where
  "set_add x xs = (if x \<in> set xs then xs else xs @ [x])"

subsection \<open>The two regular expressions\<close>

text \<open>
  \<^verbatim>\<open>v_re = re.compile(r"^(v?)([.0-9]+)$")\<close>, used with \<^verbatim>\<open>match\<close>. The result is the pair
  of groups 1 and 2. Without \<^verbatim>\<open>re.MULTILINE\<close>, \<^verbatim>\<open>$\<close> matches at the end of the string
  and also just before a newline that ends the string, so one trailing newline is
  accepted and is not part of group 2.
\<close>

definition at_dollar :: "string \<Rightarrow> bool" where
  "at_dollar rest = (rest = [] \<or> rest = [newline])"

definition v_re_match :: "string \<Rightarrow> (string \<times> string) option" where
  "v_re_match s =
     (let (g1, r) = (case s of [] \<Rightarrow> ([], s)
                      | c # t \<Rightarrow> if c = CHR ''v'' then (''v'', t) else ([], s));
          g2 = takeWhile is_dot_digit r;
          rest = dropWhile is_dot_digit r
      in if g2 \<noteq> [] \<and> at_dollar rest then Some (g1, g2) else None)"

text \<open>
  \<^verbatim>\<open>date_re = re.compile(r"^([0-9]{4})\.([0-9]{1,2})\.([0-9]{1,2})$")\<close>: the three groups.
\<close>

definition date_re_match :: "string \<Rightarrow> (string \<times> string \<times> string) option" where
  "date_re_match s =
     (let y = takeWhile is_digit s; r1 = dropWhile is_digit s in
      if length y \<noteq> 4 then None
      else case r1 of
        [] \<Rightarrow> None
      | c1 # r2 \<Rightarrow>
          if c1 \<noteq> CHR ''.'' then None
          else let m = takeWhile is_digit r2; r3 = dropWhile is_digit r2 in
            if \<not> (length m = 1 \<or> length m = 2) then None
            else (case r3 of
              [] \<Rightarrow> None
            | c2 # r4 \<Rightarrow>
                if c2 \<noteq> CHR ''.'' then None
                else let d = takeWhile is_digit r4; r5 = dropWhile is_digit r4 in
                  if (length d = 1 \<or> length d = 2) \<and> at_dollar r5
                  then Some (y, m, d) else None))"

subsection \<open>Data\<close>

text \<open>
  A component id is a Python string, or \<open>None\<close> when a manifest entry has no
  \<^verbatim>\<open>bd-id\<close>. In an f-string \<open>None\<close> prints as \<^verbatim>\<open>None\<close>.
\<close>

type_synonym comp_id = "string option"

definition fmt_id :: "comp_id \<Rightarrow> string" where
  "fmt_id comp_id = (case comp_id of None \<Rightarrow> ''None'' | Some i \<Rightarrow> i)"

text \<open>The key \<^verbatim>\<open>f"{comp_id}::{version}"\<close> of the fallback table and of the alternate index.\<close>

definition ver_key :: "comp_id \<Rightarrow> string \<Rightarrow> string" where
  "ver_key comp_id version = fmt_id comp_id @ ''::'' @ version"

text \<open>One value of \<open>bom_comp_map\<close> or of \<open>manifest\<close>.\<close>

record comp_rec =
  versions :: "string list"
  bd_name :: string
  license_approved :: "bool option"

text \<open>One item of the bill of materials, as the server reports it.\<close>

record bom_item =
  component :: string
  componentName :: string
  componentVersionName :: "string option"
  reviewStatus :: string
  item_href :: string

text \<open>One item of a Knowledgebase version search.\<close>

record ver_entry =
  versionName :: string
  href :: string

datatype level = INFO | WARNING | ERROR | FATAL

text \<open>
  What the run does to the outside, in order: the log records at level INFO (the
  script's default level) and above, and the requests that change Black Duck.
  \<^verbatim>\<open>logging.debug\<close> and \<^verbatim>\<open>logging.log(5, ...)\<close> calls are left out.
\<close>

datatype event =
  Log level string
  | HttpPost string string
  | HttpDelete string
  | HttpPut string bom_item

datatype error =
  SysExit nat | TypeError | IndexError | KeyError | ValueError | AttributeError | HTTPError

text \<open>The fields of \<open>self\<close> that change during a run.\<close>

record state =
  manifest :: "(comp_id \<times> comp_rec) list"
  bom_comp_map :: "(comp_id \<times> comp_rec) list"
  bom_comp_ids :: "string \<rightharpoonup> comp_id"
  bom_components :: "bom_item list"
  bd_comp_id_aliases :: "string \<rightharpoonup> string"
  bd_comp_version_fallbacks :: "string \<rightharpoonup> string"
  bd_alt_canonical_versions :: "string \<rightharpoonup> string list"
  trace :: "event list"

subsection \<open>canonicalize\_version\<close>

text \<open>
  \<open>_add_alt_canonical_version\<close>: \<open>bd_alt_canonical_versions\<close> is a
  \<^verbatim>\<open>defaultdict(set)\<close>, so a missing key starts from the empty set.
\<close>

definition add_alt_canonical_version :: "comp_id \<Rightarrow> string \<Rightarrow> string \<Rightarrow> state \<Rightarrow> state" where
  "add_alt_canonical_version comp_id canon_ver alt_ver st =
     (let key = ver_key comp_id canon_ver;
          old = (case bd_alt_canonical_versions st key of None \<Rightarrow> [] | Some s \<Rightarrow> s)
      in st\<lparr>bd_alt_canonical_versions :=
              (bd_alt_canonical_versions st)(key \<mapsto> set_add alt_ver old)\<rparr>)"

text \<open>
  Reading the index: the entry for \<open>(comp_id, canon_ver)\<close> exists and contains
  \<open>alt_ver\<close>.
\<close>

definition has_alt :: "state \<Rightarrow> comp_id \<Rightarrow> string \<Rightarrow> string \<Rightarrow> bool" where
  "has_alt st comp_id canon_ver alt_ver =
     (case bd_alt_canonical_versions st (ver_key comp_id canon_ver) of
        None \<Rightarrow> False
      | Some alts \<Rightarrow> alt_ver \<in> set alts)"

text \<open>The version after the optional leading v has been stripped.\<close>

definition strip_v :: "string \<Rightarrow> string" where
  "strip_v version = (case v_re_match version of Some (g1, g2) \<Rightarrow> g2 | None \<Rightarrow> version)"

text \<open>
  The two f-strings of the date rule:
  \<^verbatim>\<open>f"{match[1]:>04}.{match[2]:>02}.{match[3]:>02}"\<close> and
  \<^verbatim>\<open>f"{int(match[1])}.{int(match[2])}.{int(match[3])}"\<close>.
\<close>

definition padded :: "string \<Rightarrow> string \<Rightarrow> string \<Rightarrow> string" where
  "padded y m d = rjust0 4 y @ ''.'' @ rjust0 2 m @ ''.'' @ rjust0 2 d"

definition unpadded :: "string \<Rightarrow> string \<Rightarrow> string \<Rightarrow> string" where
  "unpadded y m d = int_str y @ ''.'' @ int_str m @ ''.'' @ int_str d"

text \<open>
  The component-specific heuristics: the pair \<open>(canon_ver, alt_ver)\<close> computed from the
  component name and the stripped version.
\<close>

definition heuristics :: "string \<Rightarrow> string \<Rightarrow> string \<times> string" where
  "heuristics comp_name version =
     (if prefix ''erlang'' comp_name then
        (if prefix ''OTP-'' version then drop 4 version else version, version)
      else if prefix ''go programming language'' comp_name then
        (if prefix ''go'' version then drop 2 version else version, version)
      else if is_substring ''certifi'' comp_name then
        (case date_re_match version of
           Some (y, m, d) \<Rightarrow> (padded y m d, unpadded y m d)
         | None \<Rightarrow> (version, version))
      else (version, version))"

text \<open>
  The date rule is the one that applies: the name reaches the third branch and the
  version has the shape of a date.
\<close>

definition date_rule_applies :: "string \<Rightarrow> string \<Rightarrow> bool" where
  "date_rule_applies comp_name version =
     (\<not> prefix ''erlang'' comp_name \<and> \<not> prefix ''go programming language'' comp_name
      \<and> is_substring ''certifi'' comp_name \<and> date_re_match version \<noteq> None)"

text \<open>
  A version that a further pass leaves as it is, for the names of the Erlang and Go
  families: the v rule does not change it, and it does not begin with the literal
  prefix that the family's branch strips. The branch is chosen as in \<open>heuristics\<close>.
\<close>

definition unchanged_by_rules :: "string \<Rightarrow> string \<Rightarrow> bool" where
  "unchanged_by_rules comp_name r =
     (if prefix ''erlang'' comp_name then strip_v r = r \<and> \<not> prefix ''OTP-'' r
      else if prefix ''go programming language'' comp_name
      then strip_v r = r \<and> \<not> prefix ''go'' r
      else True)"

text \<open>One round of the loop \<^verbatim>\<open>for alt in (alt_ver, version)\<close>.\<close>

definition save_alt :: "bool \<Rightarrow> comp_id \<Rightarrow> string \<Rightarrow> string \<Rightarrow> state \<Rightarrow> state" where
  "save_alt v_matched comp_id canon_ver alt st =
     (let st1 = (if v_matched
                 then add_alt_canonical_version comp_id canon_ver (''v'' @ alt) st else st)
      in if canon_ver \<noteq> alt
         then add_alt_canonical_version comp_id canon_ver alt st1 else st1)"

definition canonicalize_version ::
    "string \<Rightarrow> comp_id \<Rightarrow> string \<Rightarrow> bool \<Rightarrow> state \<Rightarrow> string \<times> state" where
  "canonicalize_version comp_name comp_id version0 save_alts st =
     (let v_matched = (v_re_match version0 \<noteq> None);
          version = strip_v version0;
          (canon_ver, alt_ver) = heuristics comp_name version;
          st' = (if save_alts
                 then fold (save_alt v_matched comp_id canon_ver) [alt_ver, version] st
                 else st)
      in (canon_ver, st'))"

subsection \<open>The outside world\<close>

text \<open>
  What the script reads from its command line, from the Python library and from the
  Black Duck server. \<open>url_path\<close> is \<^verbatim>\<open>urlparse(url).path\<close> and \<open>quote\<close> is
  \<^verbatim>\<open>urllib.parse.quote\<close>. \<open>kb_versions url\<close> is the item list the Knowledgebase
  answers to the search request \<open>url\<close>. \<open>manual_components\<close> is the answer of
  \<open>_get_manual_components\<close>, which may depend on what was requested before.
  \<open>request_ok\<close> says whether the server answers a changing request with success, so
  that \<^verbatim>\<open>raise_for_status()\<close> returns.
\<close>

record env =
  dryrun :: bool
  project_name :: string
  project_version :: string
  comp_base :: string
  pv_components_url :: string
  url_path :: "string \<Rightarrow> string"
  quote :: "string \<Rightarrow> string"
  kb_versions :: "string \<Rightarrow> ver_entry list"
  manual_components :: "event list \<Rightarrow> bom_item list"
  request_ok :: "event \<Rightarrow> bool"

type_synonym 'a result = "(error + 'a) \<times> state"

definition log :: "level \<Rightarrow> string \<Rightarrow> state \<Rightarrow> state" where
  "log lv msg st = st\<lparr>trace := trace st @ [Log lv msg]\<rparr>"

definition request :: "event \<Rightarrow> state \<Rightarrow> state" where
  "request ev st = st\<lparr>trace := trace st @ [ev]\<rparr>"

subsection \<open>Looking a version up in the Knowledgebase\<close>

text \<open>The loop of \<open>_find_component_version\<close> over the items found.\<close>

fun first_exact :: "string \<Rightarrow> ver_entry list \<Rightarrow> string option" where
  "first_exact version [] = None"
| "first_exact version (ver_entry # rest) =
     (if versionName ver_entry = version then Some (href ver_entry)
      else first_exact version rest)"

text \<open>\<^verbatim>\<open>re.sub(r'[+]', '_', version)\<close>\<close>

definition safe_version :: "string \<Rightarrow> string" where
  "safe_version version = map (\<lambda>c. if c = CHR ''+'' then CHR ''_'' else c) version"

definition versions_url :: "env \<Rightarrow> string \<Rightarrow> string \<Rightarrow> string" where
  "versions_url e i version =
     (comp_base e @ i) @ ''/versions?q=versionName:'' @ quote e (safe_version version)
       @ ''&limit=100''"

text \<open>
  \<open>_find_component_version\<close>. With the component id \<open>None\<close> the concatenation
  \<^verbatim>\<open>self.comp_base + comp_id\<close> raises \<open>TypeError\<close>.
\<close>

definition find_component_version ::
    "env \<Rightarrow> string \<Rightarrow> comp_id \<Rightarrow> string \<Rightarrow> error + string option" where
  "find_component_version e comp_name comp_id version =
     (case comp_id of
        None \<Rightarrow> Inl TypeError
      | Some i \<Rightarrow> Inr (first_exact version (kb_versions e (versions_url e i version))))"

text \<open>The loop of \<open>find_canonical_component_version\<close> over the alternate spellings.\<close>

fun probe_alts :: "env \<Rightarrow> string \<Rightarrow> comp_id \<Rightarrow> string list \<Rightarrow> state \<Rightarrow> string option result" where
  "probe_alts e comp_name comp_id [] st = (Inr None, st)"
| "probe_alts e comp_name comp_id (alt_ver # rest) st =
     (case find_component_version e comp_name comp_id alt_ver of
        Inl err \<Rightarrow> (Inl err, st)
      | Inr None \<Rightarrow> probe_alts e comp_name comp_id rest st
      | Inr (Some url) \<Rightarrow>
          (Inr (Some url), log INFO (''Found alt-canonical version '' @ alt_ver @ ''!'') st))"

definition find_canonical_component_version ::
    "env \<Rightarrow> string \<Rightarrow> comp_id \<Rightarrow> string \<Rightarrow> state \<Rightarrow> string option result" where
  "find_canonical_component_version e comp_name comp_id version st =
     (case find_component_version e comp_name comp_id version of
        Inl err \<Rightarrow> (Inl err, st)
      | Inr (Some url) \<Rightarrow> (Inr (Some url), st)
      | Inr None \<Rightarrow>
          (case bd_alt_canonical_versions st (ver_key comp_id version) of
             None \<Rightarrow> (Inr None, st)
           | Some alt_vers \<Rightarrow> probe_alts e comp_name comp_id alt_vers st))"

subsection \<open>fallback\_version\_if\_necessary\<close>

definition bom_has_canonical :: "state \<Rightarrow> comp_id \<Rightarrow> string \<Rightarrow> bool" where
  "bom_has_canonical st comp_id version =
     (case map_of (bom_comp_map st) comp_id of
        None \<Rightarrow> False
      | Some comp_data \<Rightarrow> version \<in> set (versions comp_data))"

definition fallback_version_if_necessary ::
    "env \<Rightarrow> string \<Rightarrow> comp_id \<Rightarrow> string \<Rightarrow> state \<Rightarrow> string result" where
  "fallback_version_if_necessary e comp_name comp_id version st =
     (case bd_comp_version_fallbacks st (ver_key comp_id version) of
        None \<Rightarrow> (Inr version, st)
      | Some fallback_version \<Rightarrow>
          if bom_has_canonical st comp_id version then (Inr version, st)
          else
            (case find_canonical_component_version e comp_name comp_id version st of
               (Inl err, st1) \<Rightarrow> (Inl err, st1)
             | (Inr (Some url), st1) \<Rightarrow> (Inr version, st1)
             | (Inr None, st1) \<Rightarrow>
                 (let (canon_fallback_ver, st2) =
                        canonicalize_version comp_name comp_id fallback_version True st1
                  in case find_canonical_component_version e comp_name comp_id
                            canon_fallback_ver st2 of
                       (Inl err, st3) \<Rightarrow> (Inl err, st3)
                     | (Inr None, st3) \<Rightarrow>
                         (Inl (SysExit 2),
                          log ERROR (''Tried fallback version '' @ fallback_version
                            @ '' for component '' @ comp_name
                            @ '', but it didn't exist either!!'') st3)
                     | (Inr (Some url), st3) \<Rightarrow>
                         (Inr canon_fallback_ver,
                          log INFO (''Using canonical fallback version ''
                            @ canon_fallback_ver @ '' for component '' @ comp_name) st3))))"

subsection \<open>add\_component\<close>

text \<open>
  The YAML data of one component of a manifest. \<open>cd_versions\<close> holds \<^verbatim>\<open>str(v)\<close> for
  each listed version (empty when the key \<^verbatim>\<open>versions\<close> is absent); the other three
  fields are \<open>None\<close> when their key is absent.
\<close>

record comp_data =
  cd_versions :: "string list"
  cd_license_approved :: "bool option"
  cd_bd_name :: "string option"
  cd_bd_id :: "string option"

text \<open>\<^verbatim>\<open>self.bd_comp_id_aliases.get(comp_id, comp_id)\<close>\<close>

definition translate_id :: "state \<Rightarrow> comp_id \<Rightarrow> comp_id" where
  "translate_id st comp_id =
     (case comp_id of
        None \<Rightarrow> None
      | Some i \<Rightarrow> (case bd_comp_id_aliases st i of None \<Rightarrow> Some i | Some c \<Rightarrow> Some c))"

text \<open>The list comprehension over the versions, left to right.\<close>

fun add_versions :: "env \<Rightarrow> string \<Rightarrow> comp_id \<Rightarrow> string list \<Rightarrow> state \<Rightarrow> string list result" where
  "add_versions e comp_name comp_id [] st = (Inr [], st)"
| "add_versions e comp_name comp_id (v # vs) st =
     (let (canon_ver, st1) = canonicalize_version comp_name comp_id v True st
      in case fallback_version_if_necessary e comp_name comp_id canon_ver st1 of
           (Inl err, st2) \<Rightarrow> (Inl err, st2)
         | (Inr ver, st2) \<Rightarrow>
             (case add_versions e comp_name comp_id vs st2 of
                (Inl err, st3) \<Rightarrow> (Inl err, st3)
              | (Inr rest, st3) \<Rightarrow> (Inr (ver # rest), st3)))"

text \<open>
  The three assignments to \<open>self.manifest[comp_id]\<close>. \<open>manifest\<close> is a
  \<^verbatim>\<open>defaultdict\<close> whose new entries start with the empty version set.
\<close>

definition store_manifest ::
    "comp_id \<Rightarrow> string \<Rightarrow> string list \<Rightarrow> bool option \<Rightarrow> state \<Rightarrow> state" where
  "store_manifest comp_id comp_name vers license st =
     (let old_versions = (case map_of (manifest st) comp_id of
                            None \<Rightarrow> [] | Some r \<Rightarrow> versions r)
      in st\<lparr>manifest := AList.update comp_id
              \<lparr>versions = fold set_add vers old_versions,
               bd_name = comp_name,
               license_approved = license\<rparr> (manifest st)\<rparr>)"

definition add_component :: "env \<Rightarrow> string \<Rightarrow> comp_data \<Rightarrow> state \<Rightarrow> unit result" where
  "add_component e comp_name0 cd st =
     (let license = cd_license_approved cd;
          comp_name = lower (case cd_bd_name cd of None \<Rightarrow> comp_name0 | Some n \<Rightarrow> n);
          comp_id = translate_id st (cd_bd_id cd)
      in case add_versions e comp_name comp_id (cd_versions cd) st of
           (Inl err, st1) \<Rightarrow> (Inl err, st1)
         | (Inr vers, st1) \<Rightarrow> (Inr (), store_manifest comp_id comp_name vers license st1))"

text \<open>
  The calls of \<open>add_component\<close> that the manifest walker makes, in its order; the run
  stops at the first error.
\<close>

fun add_components :: "env \<Rightarrow> (string \<times> comp_data) list \<Rightarrow> state \<Rightarrow> unit result" where
  "add_components e [] st = (Inr (), st)"
| "add_components e ((comp_name, cd) # rest) st =
     (case add_component e comp_name cd st of
        (Inl err, st1) \<Rightarrow> (Inl err, st1)
      | (Inr u, st1) \<Rightarrow> add_components e rest st1)"

subsection \<open>Loading the alias file\<close>

text \<open>
  One entry of \<^verbatim>\<open>bd_aliases.yaml\<close>, as parsed: the optional \<^verbatim>\<open>bd-name\<close>, the list
  \<^verbatim>\<open>bd-id-aliases\<close> and the mapping \<^verbatim>\<open>fallback-versions\<close> (both empty when absent).
\<close>

record alias_data =
  ad_bd_name :: "string option"
  ad_bd_id_aliases :: "string list"
  ad_fallback_versions :: "(string \<times> string) list"

definition add_id_alias :: "string \<Rightarrow> string \<Rightarrow> state \<Rightarrow> state" where
  "add_id_alias comp_id alias_id st =
     st\<lparr>bd_comp_id_aliases := (bd_comp_id_aliases st)(alias_id \<mapsto> comp_id)\<rparr>"

text \<open>The body of the loop over \<^verbatim>\<open>fallback-versions\<close>; \<open>save_alts\<close> has its default.\<close>

definition add_fallback :: "string \<Rightarrow> string \<Rightarrow> string \<times> string \<Rightarrow> state \<Rightarrow> state" where
  "add_fallback comp_name comp_id entry st =
     (let (canon_ver, st1) =
            canonicalize_version comp_name (Some comp_id) (fst entry) False st
      in st1\<lparr>bd_comp_version_fallbacks :=
               (bd_comp_version_fallbacks st1)(ver_key (Some comp_id) canon_ver \<mapsto> snd entry)\<rparr>)"

definition load_alias_entry :: "string \<times> alias_data \<Rightarrow> state \<Rightarrow> state" where
  "load_alias_entry entry st =
     (let comp_id = fst entry;
          comp_data = snd entry;
          comp_name = (case ad_bd_name comp_data of
                         None \<Rightarrow> ''<unknown component name>'' | Some n \<Rightarrow> n);
          st1 = fold (add_id_alias comp_id) (ad_bd_id_aliases comp_data) st
      in fold (add_fallback comp_name comp_id) (ad_fallback_versions comp_data) st1)"

text \<open>\<open>_load_bd_aliases\<close>, from the parsed file on.\<close>

definition load_bd_aliases :: "(string \<times> alias_data) list \<Rightarrow> state \<Rightarrow> state" where
  "load_bd_aliases aliases st = fold load_alias_entry aliases st"

subsection \<open>Loading the bill of materials\<close>

text \<open>\<^verbatim>\<open>path.rsplit('/', 1)[1]\<close>: the index fails when the path has no slash.\<close>

definition rsplit_last :: "string \<Rightarrow> error + string" where
  "rsplit_last p =
     (if CHR ''/'' \<in> set p then Inr (rev (takeWhile (\<lambda>c. c \<noteq> CHR ''/'') (rev p)))
      else Inl IndexError)"

text \<open>
  The three statements on \<open>self.bom_comp_map[comp_id]\<close>. New entries of this
  \<^verbatim>\<open>defaultdict\<close> start with no version and \<^verbatim>\<open>license-approved\<close> False.
\<close>

definition store_bom :: "comp_id \<Rightarrow> string \<Rightarrow> string \<Rightarrow> bool \<Rightarrow> state \<Rightarrow> state" where
  "store_bom comp_id comp_name comp_version_name reviewed st =
     (let old = (case map_of (bom_comp_map st) comp_id of
                   None \<Rightarrow> \<lparr>versions = [], bd_name = comp_name, license_approved = Some False\<rparr>
                 | Some r \<Rightarrow> r)
      in st\<lparr>bom_comp_map := AList.update comp_id
              \<lparr>versions = set_add comp_version_name (versions old),
               bd_name = comp_name,
               license_approved = Some (license_approved old = Some True \<or> reviewed)\<rparr>
              (bom_comp_map st)\<rparr>)"

text \<open>One round of the loop, for the item at index \<open>k\<close> of \<open>self.bom_components\<close>.\<close>

definition load_bom_item :: "env \<Rightarrow> nat \<Rightarrow> state \<Rightarrow> unit result" where
  "load_bom_item e k st =
     (let comp = bom_components st ! k;
          comp_url = component comp
      in case rsplit_last (url_path e comp_url) of
           Inl err \<Rightarrow> (Inl err, st)
         | Inr i \<Rightarrow>
             (let comp_id = Some i;
                  comp_name = lower (componentName comp);
                  (comp_version_name, st1) =
                     canonicalize_version comp_name comp_id
                       (case componentVersionName comp of None \<Rightarrow> [] | Some v \<Rightarrow> v) False st;
                  reviewed = (reviewStatus comp = ''REVIEWED'');
                  st2 = store_bom comp_id comp_name comp_version_name reviewed st1;
                  st3 = st2\<lparr>bom_components := (bom_components st2)
                              [k := comp\<lparr>componentVersionName := Some comp_version_name\<rparr>]\<rparr>
              in (Inr (), st3\<lparr>bom_comp_ids := (bom_comp_ids st3)(comp_name \<mapsto> comp_id)\<rparr>)))"

fun load_bom_loop :: "env \<Rightarrow> nat list \<Rightarrow> state \<Rightarrow> unit result" where
  "load_bom_loop e [] st = (Inr (), st)"
| "load_bom_loop e (k # ks) st =
     (case load_bom_item e k st of
        (Inl err, st1) \<Rightarrow> (Inl err, st1)
      | (Inr u, st1) \<Rightarrow> load_bom_loop e ks st1)"

text \<open>\<open>_load_manual_bom_components\<close>\<close>

definition load_manual_bom_components :: "env \<Rightarrow> state \<Rightarrow> unit result" where
  "load_manual_bom_components e st =
     (let st1 = log INFO (''Retrieving current manual BOM for '' @ project_name e
                            @ '' '' @ project_version e) st;
          st2 = st1\<lparr>bom_components := manual_components e (trace st1)\<rparr>
      in load_bom_loop e [0 ..< length (bom_components st2)] st2)"

subsection \<open>The three changes to Black Duck\<close>

definition mismatch_msg :: "comp_id \<Rightarrow> string \<Rightarrow> string \<Rightarrow> string \<Rightarrow> string" where
  "mismatch_msg comp_id comp_name version component_version_url =
     ''ERROR! Component ID mismatch'' @ replicate 5 newline
     @ ''Our black-duck-manifest references component ID '' @ fmt_id comp_id
     @ '' for component '' @ comp_name @ ''; however searching for version ''
     @ version @ '' returned the URL '' @ component_version_url @ '' which ''
     @ ''references a different component ID. This probably means ''
     @ ''that the Black Duck Knowledgebase has changed the ID. ''
     @ ''Please add a new entry in bd_aliases.yaml that maps this ''
     @ ''new canonical ID to the older ID '' @ fmt_id comp_id @ ''.'' @ replicate 4 newline"

text \<open>The end of \<open>add_component_version\<close>: the request, unless this is a dry run.\<close>

definition post_component :: "env \<Rightarrow> string \<Rightarrow> state \<Rightarrow> unit result" where
  "post_component e component_version_url st =
     (if dryrun e then (Inr (), log INFO ''DRYRUN: not updating Black Duck'' st)
      else let ev = HttpPost (pv_components_url e) component_version_url;
               st1 = request ev st
           in if request_ok e ev then (Inr (), st1) else (Inl HTTPError, st1))"

definition adding_msg :: "string \<Rightarrow> comp_id \<Rightarrow> string \<Rightarrow> string" where
  "adding_msg comp_name comp_id version =
     ''Adding component to Black Duck: '' @ comp_name @ '' ('' @ fmt_id comp_id
     @ '') version '' @ version"

definition add_component_version :: "env \<Rightarrow> string \<Rightarrow> comp_id \<Rightarrow> string \<Rightarrow> state \<Rightarrow> unit result" where
  "add_component_version e comp_name comp_id version st =
     (let st0 = log INFO (adding_msg comp_name comp_id version) st
      in case find_canonical_component_version e comp_name comp_id version st0 of
           (Inl err, st1) \<Rightarrow> (Inl err, st1)
         | (Inr None, st1) \<Rightarrow>
             (Inl (SysExit 3),
              log FATAL (''Could not find version '' @ version @ '' for '' @ comp_name
                @ '' (or any alt-canonical version names) in Knowledgebase!'') st1)
         | (Inr (Some component_version_url), st1) \<Rightarrow>
             (case comp_id of
                None \<Rightarrow> (Inl TypeError, st1)
              | Some i \<Rightarrow>
                  (let st2 = (if \<not> is_substring i component_version_url
                              then log FATAL (mismatch_msg comp_id comp_name version
                                                component_version_url) st1
                              else st1)
                   in post_component e component_version_url st2)))"

text \<open>The search of \<open>remove_component_version\<close> through \<open>self.bom_components\<close>.\<close>

fun delete_first :: "env \<Rightarrow> string \<Rightarrow> string \<Rightarrow> bom_item list \<Rightarrow> state \<Rightarrow> bool result" where
  "delete_first e comp_url version [] st = (Inr False, st)"
| "delete_first e comp_url version (c # cs) st =
     (if component c = comp_url
         \<and> (case componentVersionName c of None \<Rightarrow> [] | Some v \<Rightarrow> v) = version
      then if dryrun e
           then (Inr True, log INFO ''DRYRUN: found comp-version but not updating Black Duck'' st)
           else let ev = HttpDelete (item_href c); st1 = request ev st
                in if request_ok e ev then (Inr True, st1) else (Inl HTTPError, st1)
      else delete_first e comp_url version cs st)"

definition remove_component_version ::
    "env \<Rightarrow> string \<Rightarrow> comp_id \<Rightarrow> string \<Rightarrow> state \<Rightarrow> unit result" where
  "remove_component_version e comp_name comp_id version st =
     (let st0 = log INFO (''Removing component: '' @ comp_name @ '' ('' @ fmt_id comp_id
                            @ '') version '' @ version) st
      in case comp_id of
           None \<Rightarrow> (Inl TypeError, st0)
         | Some i \<Rightarrow>
             (case delete_first e (comp_base e @ i) version (bom_components st0) st0 of
                (Inl err, st1) \<Rightarrow> (Inl err, st1)
              | (Inr True, st1) \<Rightarrow> (Inr (), st1)
              | (Inr False, st1) \<Rightarrow>
                  (Inl (SysExit 1),
                   log FATAL (''Failed to find component '' @ i @ '' '' @ version
                     @ '' to delete!!'') st1)))"

text \<open>\<^verbatim>\<open>target.split('.', maxsplit=1)\<close> unpacked into two names.\<close>

definition split_dot :: "string \<Rightarrow> error + (string \<times> string)" where
  "split_dot target =
     (if CHR ''.'' \<in> set target
      then Inr (takeWhile (\<lambda>c. c \<noteq> CHR ''.'') target,
                tl (dropWhile (\<lambda>c. c \<noteq> CHR ''.'') target))
      else Inl ValueError)"

text \<open>The loop of \<open>change_component_version_license_approved\<close> over the current items.\<close>

fun put_items :: "env \<Rightarrow> string \<Rightarrow> bool \<Rightarrow> bom_item list \<Rightarrow> state \<Rightarrow> unit result" where
  "put_items e comp_url approved [] st = (Inr (), st)"
| "put_items e comp_url approved (item0 # rest) st =
     (if component item0 \<noteq> comp_url then put_items e comp_url approved rest st
      else
        (let item = item0\<lparr>reviewStatus := (if approved then ''REVIEWED'' else ''NOT_REVIEWED'')\<rparr>
         in case componentVersionName item of
              None \<Rightarrow> (Inl KeyError, st)
            | Some vn \<Rightarrow>
                (let st1 = log INFO (''Setting '' @ componentName item @ '' version '' @ vn
                                       @ '' to reviewStatus '' @ reviewStatus item) st
                 in if dryrun e
                    then put_items e comp_url approved rest
                           (log INFO ''DRYRUN: not updating Black Duck'' st1)
                    else let ev = HttpPut (item_href item) item; st2 = request ev st1
                         in if request_ok e ev then put_items e comp_url approved rest st2
                            else (Inl HTTPError, st2))))"

definition change_component_version_license_approved ::
    "env \<Rightarrow> string \<Rightarrow> bool \<Rightarrow> state \<Rightarrow> unit result" where
  "change_component_version_license_approved e target approved st =
     (case split_dot target of
        Inl err \<Rightarrow> (Inl err, st)
      | Inr (comp_id, field) \<Rightarrow>
          put_items e (comp_base e @ comp_id) approved (manual_components e (trace st)) st)"

subsection \<open>The difference of the two inventories\<close>

text \<open>
  Modelled from the spec: \<^verbatim>\<open>dictdiffer.diff\<close>, the function of the third-party library
  \<^verbatim>\<open>dictdiffer\<close> that \<open>perform\<close> calls and decodes; its code is not part of this
  repository. The definition follows the difference of two inventories that the
  specification describes (components on one side only, versions on one side only of a
  component on both sides, changed scalar fields), in the result format that
  \<open>perform\<close> decodes and its comments describe: triples of an action (\<^verbatim>\<open>add\<close>,
  \<^verbatim>\<open>remove\<close>, \<^verbatim>\<open>change\<close>), a target and a value. The target is the empty string for
  whole components and the dotted path \<^verbatim>\<open>id.field\<close> below a component; a key that is
  not a string or holds a dot cannot be joined into a dotted path and leaves the target
  a list of keys. The value is a list of pairs (component id, record) for whole
  components, the one-element list \<^verbatim>\<open>[(0, set)]\<close> for versions, and the pair (old, new)
  for a change.
\<close>

datatype pyval = PyNone | PyBool bool | PyStr string

datatype target = Dotted string | Node "string option list"

datatype diff_value =
  Comps "(comp_id \<times> comp_rec) list"
  | SetOf nat "string list"
  | Change pyval pyval

type_synonym diff_entry = "string \<times> target \<times> diff_value"

definition dotted :: "comp_id \<Rightarrow> string \<Rightarrow> target" where
  "dotted comp_id field =
     (case comp_id of
        None \<Rightarrow> Node [None, Some field]
      | Some i \<Rightarrow> if CHR ''.'' \<in> set i then Node [Some i, Some field]
                  else Dotted (i @ ''.'' @ field))"

definition py_approved :: "bool option \<Rightarrow> pyval" where
  "py_approved a = (case a of None \<Rightarrow> PyNone | Some b \<Rightarrow> PyBool b)"

definition diff_versions :: "target \<Rightarrow> string list \<Rightarrow> string list \<Rightarrow> diff_entry list" where
  "diff_versions t first second =
     (let addition = filter (\<lambda>v. v \<notin> set first) second;
          deletion = filter (\<lambda>v. v \<notin> set second) first
      in (if addition \<noteq> [] then [(''add'', t, SetOf 0 addition)] else [])
         @ (if deletion \<noteq> [] then [(''remove'', t, SetOf 0 deletion)] else []))"

definition diff_scalar :: "target \<Rightarrow> pyval \<Rightarrow> pyval \<Rightarrow> diff_entry list" where
  "diff_scalar t first second =
     (if first \<noteq> second then [(''change'', t, Change first second)] else [])"

definition diff_rec :: "comp_id \<Rightarrow> comp_rec \<Rightarrow> comp_rec \<Rightarrow> diff_entry list" where
  "diff_rec k first second =
     diff_versions (dotted k ''versions'') (versions first) (versions second)
     @ diff_scalar (dotted k ''license-approved'')
         (py_approved (license_approved first)) (py_approved (license_approved second))
     @ diff_scalar (dotted k ''bd-name'') (PyStr (bd_name first)) (PyStr (bd_name second))"

definition dictdiffer_diff ::
    "(comp_id \<times> comp_rec) list \<Rightarrow> (comp_id \<times> comp_rec) list \<Rightarrow> diff_entry list" where
  "dictdiffer_diff first second =
     concat (map (\<lambda>(k, r1). case map_of second k of
                               None \<Rightarrow> [] | Some r2 \<Rightarrow> diff_rec k r1 r2) first)
     @ (let addition = filter (\<lambda>(k, r). map_of first k = None) second
        in if addition \<noteq> [] then [(''add'', Dotted [], Comps addition)] else [])
     @ (let deletion = filter (\<lambda>(k, r). map_of second k = None) first
        in if deletion \<noteq> [] then [(''remove'', Dotted [], Comps deletion)] else [])"

subsection \<open>perform\<close>

text \<open>\<open>func_map[action]\<close>, looked up only when the action is \<^verbatim>\<open>add\<close> or \<^verbatim>\<open>remove\<close>.\<close>

definition func_map ::
    "env \<Rightarrow> string \<Rightarrow> string \<Rightarrow> comp_id \<Rightarrow> string \<Rightarrow> state \<Rightarrow> unit result" where
  "func_map e action =
     (if action = ''add'' then add_component_version e else remove_component_version e)"

text \<open>The loops over versions and over whole components; the counter is \<open>actions_taken\<close>.\<close>

fun apply_versions ::
    "env \<Rightarrow> string \<Rightarrow> string \<Rightarrow> comp_id \<Rightarrow> string list \<Rightarrow> nat \<Rightarrow> state \<Rightarrow> nat result" where
  "apply_versions e action comp_name comp_id [] n st = (Inr n, st)"
| "apply_versions e action comp_name comp_id (version # rest) n st =
     (case func_map e action comp_name comp_id version st of
        (Inl err, st1) \<Rightarrow> (Inl err, st1)
      | (Inr u, st1) \<Rightarrow> apply_versions e action comp_name comp_id rest (n + 1) st1)"

fun apply_comps ::
    "env \<Rightarrow> string \<Rightarrow> (comp_id \<times> comp_rec) list \<Rightarrow> nat \<Rightarrow> state \<Rightarrow> nat result" where
  "apply_comps e action [] n st = (Inr n, st)"
| "apply_comps e action ((comp_id, data) # rest) n st =
     (case apply_versions e action (bd_name data) comp_id (versions data) n st of
        (Inl err, st1) \<Rightarrow> (Inl err, st1)
      | (Inr n1, st1) \<Rightarrow> apply_comps e action rest n1 st1)"

definition truthy :: "pyval \<Rightarrow> bool" where
  "truthy v = (case v of PyNone \<Rightarrow> False | PyBool b \<Rightarrow> b | PyStr s \<Rightarrow> s \<noteq> [])"

text \<open>
  The branch for \<^verbatim>\<open>add\<close> and \<^verbatim>\<open>remove\<close>. A target that is a list is not equal to the
  empty string and has no \<^verbatim>\<open>split\<close>. The value of a target below a component always
  is one pair, so the test of its length has no branch here. A value of another shape
  than the difference produces for the target is given \<open>TypeError\<close>.
\<close>

definition perform_add_remove ::
    "env \<Rightarrow> string \<Rightarrow> target \<Rightarrow> diff_value \<Rightarrow> nat \<Rightarrow> state \<Rightarrow> nat result" where
  "perform_add_remove e action tgt val actions_taken st =
     (case tgt of
        Node ks \<Rightarrow> (Inl AttributeError, st)
      | Dotted t \<Rightarrow>
          if t = [] then
            (case val of
               Comps cs \<Rightarrow> apply_comps e action cs actions_taken st
             | _ \<Rightarrow> (Inl TypeError, st))
          else
            (case split_dot t of
               Inl err \<Rightarrow> (Inl err, st)
             | Inr (comp_id, field) \<Rightarrow>
                 if field \<noteq> ''versions''
                 then (Inl (SysExit 2), log ERROR (''Unknown field '' @ field @ ''!'') st)
                 else
                   (case val of
                      SetOf z vs \<Rightarrow>
                        (case map_of (manifest st) (Some comp_id) of
                           None \<Rightarrow> (Inl KeyError, st)
                         | Some r \<Rightarrow>
                             apply_versions e action (bd_name r) (Some comp_id) vs
                               actions_taken st)
                    | _ \<Rightarrow> (Inl TypeError, st))))"

text \<open>The branch for \<^verbatim>\<open>change\<close>.\<close>

definition perform_change ::
    "env \<Rightarrow> target \<Rightarrow> diff_value \<Rightarrow> nat \<Rightarrow> state \<Rightarrow> nat result" where
  "perform_change e tgt val actions_taken st =
     (case tgt of
        Node ks \<Rightarrow> (Inl AttributeError, st)
      | Dotted t \<Rightarrow>
          if suffix ''.bd-name'' t then (Inr actions_taken, st)
          else if suffix ''.license-approved'' t then
            (case val of
               Change old new \<Rightarrow>
                 if new = PyNone then (Inr actions_taken, st)
                 else
                   (case change_component_version_license_approved e t (truthy new) st of
                      (Inl err, st1) \<Rightarrow> (Inl err, st1)
                    | (Inr u, st1) \<Rightarrow> (Inr (actions_taken + 1), st1))
             | _ \<Rightarrow> (Inl TypeError, st))
          else (Inr actions_taken, log FATAL (''Unknown change field '' @ t @ ''!'') st))"

definition perform_entry :: "env \<Rightarrow> diff_entry \<Rightarrow> nat \<Rightarrow> state \<Rightarrow> nat result" where
  "perform_entry e entry actions_taken st =
     (case entry of (action, tgt, val) \<Rightarrow>
        if action = ''remove'' \<or> action = ''add''
        then perform_add_remove e action tgt val actions_taken st
        else if action = ''change''
        then perform_change e tgt val actions_taken st
        else (Inl (SysExit 6),
              log FATAL (''Unknown dictdiffer action '' @ action @ ''!'') st))"

fun perform_loop :: "env \<Rightarrow> diff_entry list \<Rightarrow> nat \<Rightarrow> state \<Rightarrow> nat result" where
  "perform_loop e [] n st = (Inr n, st)"
| "perform_loop e (entry # rest) n st =
     (case perform_entry e entry n st of
        (Inl err, st1) \<Rightarrow> (Inl err, st1)
      | (Inr n1, st1) \<Rightarrow> perform_loop e rest n1 st1)"

text \<open>\<^verbatim>\<open>str(n)\<close> for a natural number.\<close>

fun show_nat :: "nat \<Rightarrow> string" where
  "show_nat n =
     (if n < 10 then [char_of (48 + n)]
      else show_nat (n div 10) @ [char_of (48 + n mod 10)])"

declare show_nat.simps [simp del]

text \<open>\<open>perform\<close>; the result is the final value of \<open>actions_taken\<close>.\<close>

definition perform :: "env \<Rightarrow> state \<Rightarrow> nat result" where
  "perform e st =
     (case perform_loop e (dictdiffer_diff (bom_comp_map st) (manifest st)) 0 st of
        (Inl err, st1) \<Rightarrow> (Inl err, st1)
      | (Inr n, st1) \<Rightarrow>
          (Inr n,
           log INFO (if n = 0 then ''Current components match manifest - no updates needed!''
                     else ''Updated '' @ show_nat n @ '' components'') st1))"

subsection \<open>The state after the constructor's initialisations\<close>

text \<open>
  The fields as \<open>__init__\<close> sets them before it calls \<open>_load_bd_aliases\<close> and
  \<open>_load_manual_bom_components\<close>.
\<close>

definition init_state :: state where
  "init_state =
     \<lparr>manifest = [], bom_comp_map = [], bom_comp_ids = Map.empty, bom_components = [],
      bd_comp_id_aliases = Map.empty, bd_comp_version_fallbacks = Map.empty,
      bd_alt_canonical_versions = Map.empty, trace = []\<rparr>"

subsection \<open>Equality of inventories\<close>

text \<open>
  Python's \<^verbatim>\<open>==\<close> on two records and on two inventories: version sets are compared
  as sets, and the order of the keys of a dict does not count.
\<close>

definition py_rec_eq :: "comp_rec \<Rightarrow> comp_rec \<Rightarrow> bool" where
  "py_rec_eq r1 r2 =
     (set (versions r1) = set (versions r2) \<and> bd_name r1 = bd_name r2
      \<and> license_approved r1 = license_approved r2)"

definition py_dict_eq :: "(comp_id \<times> comp_rec) list \<Rightarrow> (comp_id \<times> comp_rec) list \<Rightarrow> bool" where
  "py_dict_eq first second =
     (list_all (\<lambda>(k, r1). case map_of second k of
                             None \<Rightarrow> False | Some r2 \<Rightarrow> py_rec_eq r1 r2) first
      \<and> list_all (\<lambda>(k, r2). map_of first k \<noteq> None) second)"

subsection \<open>Example data\<close>

text \<open>
  A small Knowledgebase. The search for \<^verbatim>\<open>1.0+1\<close> is sent as \<^verbatim>\<open>1.0_1\<close> and also
  finds \<^verbatim>\<open>1.0-1\<close>; the search for \<^verbatim>\<open>2.0+1\<close> finds only \<^verbatim>\<open>2.0-1\<close>; version
  \<^verbatim>\<open>3.0-rc1\<close> of \<^verbatim>\<open>id1\<close> exists and \<^verbatim>\<open>3.0\<close> does not; version \<^verbatim>\<open>4.0\<close> of
  \<^verbatim>\<open>id1\<close> is reported under the component id \<^verbatim>\<open>id9\<close>.
\<close>

definition example_kb :: "string \<Rightarrow> ver_entry list" where
  "example_kb url =
     (if url = ''https://bd/api/components/id1/versions?q=versionName:1.0_1&limit=100''
      then [\<lparr>versionName = ''1.0-1'', href = ''https://bd/api/components/id1/versions/a''\<rparr>,
            \<lparr>versionName = ''1.0+1'', href = ''https://bd/api/components/id1/versions/b''\<rparr>]
      else if url = ''https://bd/api/components/id1/versions?q=versionName:2.0_1&limit=100''
      then [\<lparr>versionName = ''2.0-1'', href = ''https://bd/api/components/id1/versions/c''\<rparr>]
      else if url = ''https://bd/api/components/id1/versions?q=versionName:3.0-rc1&limit=100''
      then [\<lparr>versionName = ''3.0-rc1'', href = ''https://bd/api/components/id1/versions/d''\<rparr>]
      else if url = ''https://bd/api/components/id1/versions?q=versionName:4.0&limit=100''
      then [\<lparr>versionName = ''4.0'', href = ''https://bd/api/components/id9/versions/e''\<rparr>]
      else [])"

definition example_bom :: "bom_item list" where
  "example_bom =
     [\<lparr>component = ''https://bd/api/components/id5'', componentName = ''Certifi'',
       componentVersionName = Some ''v2023.5.7'', reviewStatus = ''REVIEWED'',
       item_href = ''https://bd/api/projects/p/versions/v/components/id5/versions/f''\<rparr>]"

definition example_env :: env where
  "example_env =
     \<lparr>dryrun = False, project_name = ''server'', project_version = ''8.0.0'',
      comp_base = ''https://bd/api/components/'',
      pv_components_url = ''https://bd/api/projects/p/versions/v/components'',
      url_path = drop 10, quote = (\<lambda>s. s), kb_versions = example_kb,
      manual_components = (\<lambda>tr. example_bom), request_ok = (\<lambda>ev. True)\<rparr>"

text \<open>A state with two configured fallbacks, from \<^verbatim>\<open>3.0\<close> to \<^verbatim>\<open>3.0-rc1\<close>.\<close>

definition example_state :: state where
  "example_state =
     init_state\<lparr>bd_comp_version_fallbacks :=
                  [''id1::3.0'' \<mapsto> ''3.0-rc1'', ''id2::3.0'' \<mapsto> ''3.0-rc1'']\<rparr>"

section \<open>Properties\<close>

subsection \<open>The canonical version\<close>

lemma canon_fst: "fst (canonicalize_version n i s b st) = fst (heuristics n (strip_v s))"
  by (simp add: canonicalize_version_def Let_def split: prod.splits)

lemma canon_no_save: "snd (canonicalize_version n i s False st) = st"
  by (simp add: canonicalize_version_def Let_def split: prod.splits)

lemma not_v_dot_digit: "is_dot_digit c \<Longrightarrow> c \<noteq> CHR ''v''"
  by (auto simp: is_dot_digit_def is_digit_def)

lemma v_re_match_dot_digits:
  assumes "xs \<noteq> []" and "\<forall>c\<in>set xs. is_dot_digit c"
  shows "v_re_match xs = Some ([], xs)"
proof -
  obtain c t where xs: "xs = c # t" using assms(1) by (cases xs) auto
  have c: "c \<noteq> CHR ''v''" using assms(2) xs not_v_dot_digit by auto
  have tw: "takeWhile is_dot_digit xs = xs"
    using assms(2) by (simp add: takeWhile_eq_all_conv)
  have dw: "dropWhile is_dot_digit xs = []" using assms(2) by simp
  have "(case xs of [] \<Rightarrow> ([], xs) | c # t \<Rightarrow> if c = CHR ''v'' then (''v'', t) else ([], xs))
          = ([], xs)"
    using c xs by simp
  then show ?thesis
    unfolding v_re_match_def by (simp add: tw dw at_dollar_def assms)
qed

lemma v_re_match_group2:
  assumes "v_re_match s = Some (g1, g2)"
  shows "g2 \<noteq> [] \<and> (\<forall>c\<in>set g2. is_dot_digit c)"
  using assms
  by (auto simp: v_re_match_def Let_def split: list.splits if_splits prod.splits dest: set_takeWhileD)

lemma strip_v_dot_digits: "\<forall>c\<in>set xs. is_dot_digit c \<Longrightarrow> strip_v xs = xs"
proof (cases "xs = []")
  case True
  then show ?thesis by (simp add: strip_v_def v_re_match_def Let_def)
next
  case False
  assume "\<forall>c\<in>set xs. is_dot_digit c"
  with False show ?thesis by (simp add: strip_v_def v_re_match_dot_digits)
qed

lemma strip_v_cases:
  "(v_re_match s = None \<and> strip_v s = s) \<or> (strip_v s \<noteq> [] \<and> (\<forall>c\<in>set (strip_v s). is_dot_digit c))"
proof (cases "v_re_match s")
  case None
  then show ?thesis by (simp add: strip_v_def)
next
  case (Some p)
  then obtain g1 g2 where "v_re_match s = Some (g1, g2)" by (cases p) auto
  then show ?thesis using v_re_match_group2 by (auto simp: strip_v_def)
qed

lemma strip_v_idem: "strip_v (strip_v s) = strip_v s"
  using strip_v_cases [of s] strip_v_dot_digits [of "strip_v s"]
  by (auto simp: strip_v_def)


lemma not_digit_dot: "\<not> is_digit (CHR ''.'')"
  by (simp add: is_digit_def)

lemma takeWhile_digits_dot:
  assumes "\<forall>c\<in>set y. is_digit c"
  shows "takeWhile is_digit (y @ CHR ''.'' # rest) = y"
    and "dropWhile is_digit (y @ CHR ''.'' # rest) = CHR ''.'' # rest"
  using assms by (simp_all add: takeWhile_append2 dropWhile_append2 not_digit_dot)

lemma date_re_match_build:
  assumes "\<forall>c\<in>set y. is_digit c" "length y = 4"
      and "\<forall>c\<in>set m. is_digit c" "length m = 1 \<or> length m = 2"
      and "\<forall>c\<in>set d. is_digit c" "length d = 1 \<or> length d = 2"
  shows "date_re_match (y @ ''.'' @ m @ ''.'' @ d) = Some (y, m, d)"
proof -
  have d1: "takeWhile is_digit d = d" "dropWhile is_digit d = []"
    using assms(5) by (simp_all add: takeWhile_eq_all_conv)
  show ?thesis
    unfolding date_re_match_def
    using assms(2,4,5,6)
    by (simp add: takeWhile_digits_dot [OF assms(1)] takeWhile_digits_dot [OF assms(3)]
          d1 at_dollar_def Let_def)
qed

lemma date_re_match_groups:
  assumes "date_re_match s = Some (y, m, d)"
  shows "(\<forall>c\<in>set y. is_digit c) \<and> length y = 4
       \<and> (\<forall>c\<in>set m. is_digit c) \<and> (length m = 1 \<or> length m = 2)
       \<and> (\<forall>c\<in>set d. is_digit c) \<and> (length d = 1 \<or> length d = 2)"
  using assms unfolding date_re_match_def Let_def
  by (auto split: list.splits if_splits dest: set_takeWhileD)

lemma is_digit_zero: "is_digit (CHR ''0'')"
  by (simp add: is_digit_def)

lemma rjust0_digits: "\<forall>c\<in>set s. is_digit c \<Longrightarrow> \<forall>c\<in>set (rjust0 w s). is_digit c"
  by (auto simp: rjust0_def is_digit_zero)

lemma rjust0_length: "length s \<le> w \<Longrightarrow> length (rjust0 w s) = w"
  by (simp add: rjust0_def)

lemma rjust0_full: "w \<le> length s \<Longrightarrow> rjust0 w s = s"
  by (simp add: rjust0_def)

lemma padded_fixed:
  assumes "date_re_match s = Some (y, m, d)"
  shows "date_re_match (padded y m d) = Some (y, rjust0 2 m, rjust0 2 d)"
    and "\<forall>c\<in>set (padded y m d). is_dot_digit c"
    and "padded y m d \<noteq> []"
    and "padded y (rjust0 2 m) (rjust0 2 d) = padded y m d"
proof -
  note g = date_re_match_groups [OF assms]
  have y: "rjust0 4 y = y" using g by (simp add: rjust0_full)
  have lm: "length (rjust0 2 m) = 2" using g by (auto simp: rjust0_length)
  have ld: "length (rjust0 2 d) = 2" using g by (auto simp: rjust0_length)
  have dm: "\<forall>c\<in>set (rjust0 2 m). is_digit c" using g rjust0_digits by blast
  have dd: "\<forall>c\<in>set (rjust0 2 d). is_digit c" using g rjust0_digits by blast
  show "date_re_match (padded y m d) = Some (y, rjust0 2 m, rjust0 2 d)"
    unfolding padded_def y
    using date_re_match_build [of y "rjust0 2 m" "rjust0 2 d"] g lm ld dm dd by simp
  show "\<forall>c\<in>set (padded y m d). is_dot_digit c"
    unfolding padded_def y using g dm dd by (auto simp: is_dot_digit_def)
  show "padded y m d \<noteq> []" by (simp add: padded_def)
  show "padded y (rjust0 2 m) (rjust0 2 d) = padded y m d"
    unfolding padded_def using lm ld by (simp add: rjust0_full)
qed


lemma not_prefix_dot_digits:
  assumes "\<forall>c\<in>set r. is_dot_digit c" and "\<not> is_dot_digit p"
  shows "\<not> prefix (p # ps) r"
  using assms by (cases r) auto

lemma heuristics_idem_plain:
  assumes "\<not> prefix ''erlang'' n" and "\<not> prefix ''go programming language'' n"
  shows "fst (heuristics n (strip_v (fst (heuristics n (strip_v s)))))
           = fst (heuristics n (strip_v s))"
proof (cases "is_substring ''certifi'' n \<and> date_re_match (strip_v s) \<noteq> None")
  case True
  then obtain y m d where dm: "date_re_match (strip_v s) = Some (y, m, d)" by auto
  have r: "fst (heuristics n (strip_v s)) = padded y m d"
    using assms True dm by (simp add: heuristics_def)
  have sv: "strip_v (padded y m d) = padded y m d"
    using padded_fixed(2) [OF dm] by (rule strip_v_dot_digits)
  show ?thesis
    unfolding r sv using assms True padded_fixed(1,4) [OF dm]
    by (simp add: heuristics_def)
next
  case False
  then have r: "fst (heuristics n (strip_v s)) = strip_v s"
    using assms by (auto simp: heuristics_def split: option.splits)
  show ?thesis using r by (simp add: strip_v_idem)
qed

lemma strip_prefix_fixed:
  assumes "\<not> is_dot_digit p"
  shows "((if prefix (p # ps) (strip_v r) then drop (length (p # ps)) (strip_v r)
           else strip_v r) = r)
         = (strip_v r = r \<and> \<not> prefix (p # ps) r)"
proof
  assume fixed: "strip_v r = r \<and> \<not> prefix (p # ps) r"
  then show "(if prefix (p # ps) (strip_v r) then drop (length (p # ps)) (strip_v r)
              else strip_v r) = r"
    by simp
next
  assume eq: "(if prefix (p # ps) (strip_v r) then drop (length (p # ps)) (strip_v r)
               else strip_v r) = r"
  consider (same) "strip_v r = r"
    | (digits) "\<forall>c\<in>set (strip_v r). is_dot_digit c"
    using strip_v_cases [of r] by blast
  then show "strip_v r = r \<and> \<not> prefix (p # ps) r"
  proof cases
    case same
    have "\<not> prefix (p # ps) r"
    proof
      assume pre: "prefix (p # ps) r"
      then have "drop (length (p # ps)) r = r" using eq same by simp
      then have "length r - length (p # ps) = length r"
        by (metis length_drop)
      moreover have "length (p # ps) \<le> length r" using pre by (rule prefix_length_le)
      ultimately show False by simp
    qed
    then show ?thesis using same by simp
  next
    case digits
    have np: "\<not> prefix (p # ps) (strip_v r)"
      using digits assms by (rule not_prefix_dot_digits)
    then have "strip_v r = r" using eq by simp
    then show ?thesis using np by simp
  qed
qed

lemma heuristics_erlang:
  "prefix ''erlang'' n \<Longrightarrow>
     fst (heuristics n v) = (if prefix ''OTP-'' v then drop (length ''OTP-'') v else v)"
  by (simp add: heuristics_def eval_nat_numeral)

lemma heuristics_go:
  "\<not> prefix ''erlang'' n \<Longrightarrow> prefix ''go programming language'' n \<Longrightarrow>
     fst (heuristics n v) = (if prefix ''go'' v then drop (length ''go'') v else v)"
  by (simp add: heuristics_def eval_nat_numeral)

lemma heuristics_fixed_iff:
  "(fst (heuristics n (strip_v r)) = r) = unchanged_by_rules n r"
  if "prefix ''erlang'' n \<or> prefix ''go programming language'' n"
proof (cases "prefix ''erlang'' n")
  case True
  have "\<not> is_dot_digit (CHR ''O'')" by (simp add: is_dot_digit_def is_digit_def)
  then show ?thesis
    unfolding heuristics_erlang [OF True] unchanged_by_rules_def
    using True strip_prefix_fixed [of "CHR ''O''" "''TP-''" r] by simp
next
  case False
  then have go: "prefix ''go programming language'' n" using that by simp
  have "\<not> is_dot_digit (CHR ''g'')" by (simp add: is_dot_digit_def is_digit_def)
  then show ?thesis
    unfolding heuristics_go [OF False go] unchanged_by_rules_def
    using False go strip_prefix_fixed [of "CHR ''g''" "''o''" r] by simp
qed

text \<open>
  Claim C2, as amended. Canonicalizing the result of \<open>canonicalize_version\<close> again
  (same component name, \<open>save_alts\<close> false, any id and state) returns that result
  unchanged exactly when the result is unchanged by the rules of the name's family:
  always for a component name that starts with neither \<^verbatim>\<open>erlang\<close> nor
  \<^verbatim>\<open>go programming language\<close>; for a name of those two families when the v rule
  leaves the first result as it is and the result does not begin with the prefix the
  family strips (\<^verbatim>\<open>OTP-\<close>, \<^verbatim>\<open>go\<close>).
\<close>

theorem canonicalize_version_idempotent:
  "(fst (canonicalize_version comp_name comp_id
           (fst (canonicalize_version comp_name comp_id s save_alts st)) False st')
      = fst (canonicalize_version comp_name comp_id s save_alts st))
   = unchanged_by_rules comp_name (fst (canonicalize_version comp_name comp_id s save_alts st))"
proof (cases "prefix ''erlang'' comp_name \<or> prefix ''go programming language'' comp_name")
  case True
  then show ?thesis
    unfolding canon_fst by (rule heuristics_fixed_iff)
next
  case False
  then have u: "unchanged_by_rules comp_name r" for r
    by (simp add: unchanged_by_rules_def)
  show ?thesis
    unfolding canon_fst using False heuristics_idem_plain [of comp_name s] u by simp
qed

lemmas canon_eval =
  canon_fst strip_v_def v_re_match_def heuristics_def is_dot_digit_def is_digit_def
  at_dollar_def

theorem canonicalize_version_idempotent_witness:
  "fst (canonicalize_version ''erlang/otp'' (Some ''id'')
          (fst (canonicalize_version ''erlang/otp'' (Some ''id'') ''OTP-26.0-rc1'' True
                  init_state)) False init_state) = ''26.0-rc1''
   \<and> fst (canonicalize_version ''go programming language'' (Some ''id'')
          (fst (canonicalize_version ''go programming language'' (Some ''id'') ''go1.21rc2''
                  True init_state)) False init_state) = ''1.21rc2''
   \<and> fst (canonicalize_version ''erlang/otp'' (Some ''id'')
          (fst (canonicalize_version ''erlang/otp'' (Some ''id'') ''OTP-25.0'' True
                  init_state)) False init_state) = ''25.0''
   \<and> fst (canonicalize_version ''certifi'' (Some ''id'')
          (fst (canonicalize_version ''certifi'' (Some ''id'') ''v2023.5.7'' True init_state))
          False init_state) = ''2023.05.07''
   \<and> \<not> unchanged_by_rules ''erlang/otp''
         (fst (canonicalize_version ''erlang/otp'' (Some ''id'') ''OTP-v25.0'' True
                 init_state))"
proof -
  have e: "fst (canonicalize_version ''erlang/otp'' (Some ''id'') ''OTP-26.0-rc1'' True
             init_state) = ''26.0-rc1''"
    by (simp add: canon_eval)
  have g: "fst (canonicalize_version ''go programming language'' (Some ''id'') ''go1.21rc2''
             True init_state) = ''1.21rc2''"
    by (simp add: canon_eval)
  have o: "fst (canonicalize_version ''erlang/otp'' (Some ''id'') ''OTP-25.0'' True
             init_state) = ''25.0''"
    by (simp add: canon_eval)
  have c: "fst (canonicalize_version ''certifi'' (Some ''id'') ''v2023.5.7'' True init_state)
             = ''2023.05.07''"
    by (simp add: canon_eval date_re_match_def padded_def rjust0_def)
  have v: "fst (canonicalize_version ''erlang/otp'' (Some ''id'') ''OTP-v25.0'' True
             init_state) = ''v25.0''"
    by (simp add: canon_eval)
  have u: "unchanged_by_rules ''erlang/otp'' ''26.0-rc1''"
          "unchanged_by_rules ''go programming language'' ''1.21rc2''"
          "unchanged_by_rules ''erlang/otp'' ''25.0''"
          "unchanged_by_rules ''certifi'' ''2023.05.07''"
          "\<not> unchanged_by_rules ''erlang/otp'' ''v25.0''"
    by (simp_all add: unchanged_by_rules_def strip_v_def v_re_match_def is_dot_digit_def
          is_digit_def at_dollar_def)
  show ?thesis
    using canonicalize_version_idempotent
            [of "''erlang/otp''" "Some ''id''" "''OTP-26.0-rc1''" True init_state init_state]
          canonicalize_version_idempotent
            [of "''go programming language''" "Some ''id''" "''go1.21rc2''" True init_state
                init_state]
          canonicalize_version_idempotent
            [of "''erlang/otp''" "Some ''id''" "''OTP-25.0''" True init_state init_state]
          canonicalize_version_idempotent
            [of "''certifi''" "Some ''id''" "''v2023.5.7''" True init_state init_state]
    unfolding e g o c v using u by simp
qed

text \<open>
  The claim C2 as stated, for every component name, fails: for an Erlang component the
  version \<^verbatim>\<open>OTP-v25.0\<close> loses its \<^verbatim>\<open>OTP-\<close> in the first pass (the v rule runs
  before the Erlang rule and finds nothing to strip) and its \<^verbatim>\<open>v\<close> only in the second.
\<close>

theorem canonicalize_version_not_idempotent:
  "fst (canonicalize_version ''erlang/otp'' (Some ''id'')
          (fst (canonicalize_version ''erlang/otp'' (Some ''id'') ''OTP-v25.0'' False init_state))
          False init_state)
     \<noteq> fst (canonicalize_version ''erlang/otp'' (Some ''id'') ''OTP-v25.0'' False init_state)"
  by (simp add: canon_fst strip_v_def v_re_match_def heuristics_def is_dot_digit_def
        is_digit_def at_dollar_def)

subsection \<open>The alternate index\<close>

lemma canon_no_save_eq:
  "canonicalize_version n i s False st = (fst (heuristics n (strip_v s)), st)"
  by (simp add: canonicalize_version_def Let_def split: prod.splits)

lemma has_alt_add: "has_alt (add_alt_canonical_version i c a st) i c a"
  by (simp add: has_alt_def add_alt_canonical_version_def set_add_def Let_def)

lemma has_alt_add_mono:
  "has_alt st i c x \<Longrightarrow> has_alt (add_alt_canonical_version i' c' a st) i c x"
  by (auto simp: has_alt_def add_alt_canonical_version_def set_add_def Let_def
        split: option.splits)

lemma has_alt_save_alt_v: "has_alt (save_alt True i c alt st) i c (CHR ''v'' # alt)"
  by (simp add: save_alt_def Let_def has_alt_add has_alt_add_mono)

lemma has_alt_save_alt_diff: "c \<noteq> alt \<Longrightarrow> has_alt (save_alt vm i c alt st) i c alt"
  by (simp add: save_alt_def Let_def has_alt_add)

lemma has_alt_save_alt_mono:
  "has_alt st i c x \<Longrightarrow> has_alt (save_alt vm i' c' alt st) i c x"
  by (simp add: save_alt_def Let_def has_alt_add_mono)

lemma canon_save_eq:
  "canonicalize_version n i s True st =
     (fst (heuristics n (strip_v s)),
      save_alt (v_re_match s \<noteq> None) i (fst (heuristics n (strip_v s))) (strip_v s)
        (save_alt (v_re_match s \<noteq> None) i (fst (heuristics n (strip_v s)))
           (snd (heuristics n (strip_v s))) st))"
  by (simp add: canonicalize_version_def Let_def split: prod.splits)

lemma heuristics_certifi_date:
  assumes "is_substring ''certifi'' n" "\<not> prefix ''erlang'' n"
    "\<not> prefix ''go programming language'' n"
  shows "heuristics n ''2023.5.7'' = (''2023.05.07'', ''2023.5.7'')"
  using assms
  by (simp add: heuristics_def date_re_match_def is_digit_def at_dollar_def padded_def
        unpadded_def rjust0_def int_str_def)

lemma strip_v_example: "strip_v ''2023.5.7'' = ''2023.5.7''"
  by (simp add: strip_v_def v_re_match_def is_dot_digit_def is_digit_def at_dollar_def)

text \<open>
  Claim C6, as amended. For a component whose name contains \<^verbatim>\<open>certifi\<close> and starts
  with neither \<^verbatim>\<open>erlang\<close> nor \<^verbatim>\<open>go programming language\<close>, canonicalizing
  \<^verbatim>\<open>2023.5.7\<close> with \<open>save_alts\<close> true returns \<^verbatim>\<open>2023.05.07\<close>, and afterwards the
  index entry for the id and \<^verbatim>\<open>2023.05.07\<close> contains \<^verbatim>\<open>2023.5.7\<close>.
\<close>

theorem certifi_date_padding:
  assumes "is_substring ''certifi'' comp_name" and "\<not> prefix ''erlang'' comp_name"
      and "\<not> prefix ''go programming language'' comp_name"
  shows "fst (canonicalize_version comp_name comp_id ''2023.5.7'' True st) = ''2023.05.07''
       \<and> has_alt (snd (canonicalize_version comp_name comp_id ''2023.5.7'' True st))
            comp_id ''2023.05.07'' ''2023.5.7''"
  unfolding canon_save_eq strip_v_example heuristics_certifi_date [OF assms]
  by (simp add: has_alt_save_alt_diff)

theorem certifi_date_padding_witness:
  "fst (canonicalize_version ''certifi'' (Some ''id'') ''2023.5.7'' True init_state)
     = ''2023.05.07''
   \<and> bd_alt_canonical_versions
       (snd (canonicalize_version ''certifi'' (Some ''id'') ''2023.5.7'' True init_state))
       ''id::2023.05.07'' = Some [''v2023.5.7'', ''2023.5.7'']"
proof -
  have "bd_alt_canonical_versions
       (snd (canonicalize_version ''certifi'' (Some ''id'') ''2023.5.7'' True init_state))
       ''id::2023.05.07'' = Some [''v2023.5.7'', ''2023.5.7'']"
    unfolding canon_save_eq strip_v_example
    by (simp add: heuristics_certifi_date save_alt_def add_alt_canonical_version_def
          set_add_def ver_key_def fmt_id_def init_state_def v_re_match_def is_dot_digit_def
          is_digit_def at_dollar_def)
  then show ?thesis
    using certifi_date_padding [of "''certifi''" "Some ''id''" init_state] by simp
qed

text \<open>
  The claim C6 as stated, for every name that contains \<^verbatim>\<open>certifi\<close>, fails: the date
  rule is the third branch of the chain, and a name that starts with \<^verbatim>\<open>erlang\<close>
  takes the first.
\<close>

theorem certifi_rule_after_erlang_rule:
  "fst (canonicalize_version ''erlang-certifi'' (Some ''id'') ''2023.5.7'' True init_state)
     \<noteq> ''2023.05.07''"
  unfolding canon_save_eq strip_v_example
  by (simp add: heuristics_def)


lemma heuristics_no_date_rule:
  assumes "\<forall>c\<in>set version. is_dot_digit c" and "\<not> date_rule_applies n version"
  shows "fst (heuristics n version) = version"
proof -
  have o: "\<not> prefix ''OTP-'' version"
    using not_prefix_dot_digits [OF assms(1), of "CHR ''O''" "''TP-''"]
    by (simp add: is_dot_digit_def is_digit_def)
  have g: "\<not> prefix ''go'' version"
    using not_prefix_dot_digits [OF assms(1), of "CHR ''g''" "''o''"]
    by (simp add: is_dot_digit_def is_digit_def)
  show ?thesis
    using assms(2) o g
    by (auto simp: heuristics_def date_rule_applies_def split: option.splits)
qed

text \<open>
  Claim C10, as amended. For every non-empty version made of digits and dots,
  canonicalizing it with \<open>save_alts\<close> true puts the v-prefixed version into the index
  entry for the id and the canonical version. Unless the date rule applies, the
  canonical version is the version itself, so that the v-prefixed canonical version is
  in that entry.
\<close>

theorem v_alt_registered:
  assumes "version \<noteq> []" and "\<forall>c\<in>set version. is_dot_digit c"
  shows "has_alt (snd (canonicalize_version comp_name comp_id version True st)) comp_id
           (fst (canonicalize_version comp_name comp_id version True st)) (''v'' @ version)
       \<and> (\<not> date_rule_applies comp_name version \<longrightarrow>
            fst (canonicalize_version comp_name comp_id version True st) = version
          \<and> has_alt (snd (canonicalize_version comp_name comp_id version True st)) comp_id
              (fst (canonicalize_version comp_name comp_id version True st))
              (''v'' @ fst (canonicalize_version comp_name comp_id version True st)))"
proof -
  have vm: "v_re_match version = Some ([], version)"
    using assms by (rule v_re_match_dot_digits)
  have sv: "strip_v version = version" using assms(2) by (rule strip_v_dot_digits)
  have 1: "has_alt (snd (canonicalize_version comp_name comp_id version True st)) comp_id
           (fst (canonicalize_version comp_name comp_id version True st)) (''v'' @ version)"
    unfolding canon_save_eq sv by (simp add: vm has_alt_save_alt_v)
  have 2: "fst (canonicalize_version comp_name comp_id version True st) = version"
    if "\<not> date_rule_applies comp_name version"
    unfolding canon_fst sv using assms(2) that by (rule heuristics_no_date_rule)
  show ?thesis using 1 2 by auto
qed

theorem v_alt_registered_witness:
  "has_alt (snd (canonicalize_version ''fmtlib/fmt'' (Some ''id'') ''7.1.3'' True init_state))
     (Some ''id'')
     (fst (canonicalize_version ''fmtlib/fmt'' (Some ''id'') ''7.1.3'' True init_state))
     ''v7.1.3''
   \<and> fst (canonicalize_version ''fmtlib/fmt'' (Some ''id'') ''7.1.3'' True init_state)
       = ''7.1.3''"
proof -
  have d: "''7.1.3'' \<noteq> [] \<and> (\<forall>c\<in>set ''7.1.3''. is_dot_digit c)"
    by (simp add: is_dot_digit_def is_digit_def)
  have n: "\<not> date_rule_applies ''fmtlib/fmt'' ''7.1.3''"
    by (simp add: date_rule_applies_def)
  show ?thesis
    using v_alt_registered [of "''7.1.3''" "''fmtlib/fmt''" "Some ''id''" init_state] d n
    by auto
qed

text \<open>
  The claim C10 as stated fails where the date rule pads the version: for
  \<^verbatim>\<open>2023.5.7\<close> the entry of \<^verbatim>\<open>2023.05.07\<close> holds \<^verbatim>\<open>v2023.5.7\<close> and
  \<^verbatim>\<open>2023.5.7\<close>, and not \<^verbatim>\<open>v2023.05.07\<close>.
\<close>

theorem v_canonical_not_registered:
  "\<not> has_alt (snd (canonicalize_version ''certifi'' (Some ''id'') ''2023.5.7'' True init_state))
       (Some ''id'')
       (fst (canonicalize_version ''certifi'' (Some ''id'') ''2023.5.7'' True init_state))
       (''v'' @ fst (canonicalize_version ''certifi'' (Some ''id'') ''2023.5.7'' True init_state))"
  unfolding canon_save_eq strip_v_example
  by (simp add: heuristics_certifi_date save_alt_def add_alt_canonical_version_def
        set_add_def ver_key_def fmt_id_def init_state_def v_re_match_def is_dot_digit_def
        is_digit_def at_dollar_def has_alt_def)

subsection \<open>What leaves the index alone\<close>

lemma alts_store_bom [simp]:
  "bd_alt_canonical_versions (store_bom i n v r st) = bd_alt_canonical_versions st"
  by (simp add: store_bom_def Let_def)

lemma alts_load_bom_item:
  "bd_alt_canonical_versions (snd (load_bom_item e k st)) = bd_alt_canonical_versions st"
  by (simp add: load_bom_item_def canon_no_save_eq Let_def split: sum.splits)

lemma alts_load_bom_loop:
  "bd_alt_canonical_versions (snd (load_bom_loop e ks st)) = bd_alt_canonical_versions st"
proof (induction ks arbitrary: st)
  case Nil
  show ?case by simp
next
  case (Cons k ks)
  obtain r st1 where step: "load_bom_item e k st = (r, st1)" by (cases "load_bom_item e k st")
  have a: "bd_alt_canonical_versions st1 = bd_alt_canonical_versions st"
    using alts_load_bom_item [of e k st] step by simp
  show ?case
  proof (cases r)
    case (Inl err)
    then show ?thesis using step a by simp
  next
    case (Inr u)
    then show ?thesis using step a Cons.IH [of st1] by simp
  qed
qed

lemma alts_add_fallback:
  "bd_alt_canonical_versions (add_fallback n i entry st) = bd_alt_canonical_versions st"
  by (simp add: add_fallback_def canon_no_save_eq)

lemma alts_fold_add_fallback:
  "bd_alt_canonical_versions (fold (add_fallback n i) es st) = bd_alt_canonical_versions st"
  by (induction es arbitrary: st) (simp_all add: alts_add_fallback)

lemma alts_fold_add_id_alias:
  "bd_alt_canonical_versions (fold (add_id_alias i) as st) = bd_alt_canonical_versions st"
  by (induction as arbitrary: st) (simp_all add: add_id_alias_def)

lemma alts_load_alias_entry:
  "bd_alt_canonical_versions (load_alias_entry entry st) = bd_alt_canonical_versions st"
  by (simp add: load_alias_entry_def Let_def alts_fold_add_fallback alts_fold_add_id_alias)

lemma alts_load_bd_aliases:
  "bd_alt_canonical_versions (load_bd_aliases aliases st) = bd_alt_canonical_versions st"
  unfolding load_bd_aliases_def
  by (induction aliases arbitrary: st) (simp_all add: alts_load_alias_entry)

text \<open>
  Claim C9. Canonicalizing with \<open>save_alts\<close> false returns the state as it was, and
  loading the bill of materials leaves \<open>bd_alt_canonical_versions\<close> unchanged,
  whether the load ends normally or with an error; so does loading the alias file.
\<close>

theorem remote_load_leaves_alt_index:
  "snd (canonicalize_version comp_name comp_id version False st) = st
   \<and> bd_alt_canonical_versions (snd (load_manual_bom_components e st))
       = bd_alt_canonical_versions st
   \<and> bd_alt_canonical_versions (load_bd_aliases aliases st) = bd_alt_canonical_versions st"
  by (simp add: canon_no_save load_manual_bom_components_def Let_def alts_load_bom_loop
        alts_load_bd_aliases log_def)

subsection \<open>Names in upper case\<close>

lemma lower_example: "lower ''Erlang/OTP'' = ''erlang/otp''"
  by (simp add: lower_def lower_char_def)

text \<open>
  Claim C5. \<open>canonicalize_version\<close> compares the component name as it is given;
  \<open>add_component\<close> and \<open>_load_manual_bom_components\<close> pass the name in lower case,
  \<open>_load_bd_aliases\<close> passes the \<^verbatim>\<open>bd-name\<close> of the alias file as written. For an
  alias entry named \<^verbatim>\<open>Erlang/OTP\<close> the Erlang rule is not applied: the fallback of
  \<^verbatim>\<open>OTP-26.0\<close> is stored under the key of \<^verbatim>\<open>OTP-26.0\<close>, while the manifest side
  looks it up under the key of \<^verbatim>\<open>26.0\<close>.
\<close>

theorem load_bd_aliases_name_case:
  "fst (canonicalize_version ''Erlang/OTP'' (Some ''id'') ''OTP-26.0'' False init_state)
     = ''OTP-26.0''
   \<and> fst (canonicalize_version (lower ''Erlang/OTP'') (Some ''id'') ''OTP-26.0'' False init_state)
     = ''26.0''
   \<and> bd_comp_version_fallbacks
       (load_bd_aliases
          [(''id'', \<lparr>ad_bd_name = Some ''Erlang/OTP'', ad_bd_id_aliases = [],
                    ad_fallback_versions = [(''OTP-26.0'', ''OTP-25.0'')]\<rparr>)] init_state)
       (ver_key (Some ''id'') ''26.0'') = None
   \<and> bd_comp_version_fallbacks
       (load_bd_aliases
          [(''id'', \<lparr>ad_bd_name = Some ''Erlang/OTP'', ad_bd_id_aliases = [],
                    ad_fallback_versions = [(''OTP-26.0'', ''OTP-25.0'')]\<rparr>)] init_state)
       (ver_key (Some ''id'') ''OTP-26.0'') = Some ''OTP-25.0''"
  by (simp add: lower_example canon_fst canon_no_save_eq load_bd_aliases_def
        load_alias_entry_def add_fallback_def strip_v_def v_re_match_def heuristics_def
        is_dot_digit_def is_digit_def at_dollar_def ver_key_def fmt_id_def init_state_def)

subsection \<open>The Knowledgebase lookup\<close>

lemma first_exact_Some:
  "first_exact version entries = Some url \<Longrightarrow>
     \<exists>entry\<in>set entries. versionName entry = version \<and> href entry = url"
  by (induction entries) (auto split: if_splits)

lemma first_exact_None:
  "(first_exact version entries = None) = (\<forall>entry\<in>set entries. versionName entry \<noteq> version)"
  by (induction entries) auto

text \<open>
  Claim C7. For every component id, name and version: a URL that
  \<open>_find_component_version\<close> returns is the link of a found item whose
  \<^verbatim>\<open>versionName\<close> is the requested version; when no found item has that
  \<^verbatim>\<open>versionName\<close> the result is \<open>None\<close>; and when one has, a URL is returned.
\<close>

theorem find_component_version_exact:
  "(find_component_version e comp_name (Some i) version = Inr (Some url) \<longrightarrow>
      (\<exists>entry\<in>set (kb_versions e (versions_url e i version)).
          versionName entry = version \<and> href entry = url))
   \<and> ((\<forall>entry\<in>set (kb_versions e (versions_url e i version)). versionName entry \<noteq> version)
        \<longrightarrow> find_component_version e comp_name (Some i) version = Inr None)
   \<and> ((\<exists>entry\<in>set (kb_versions e (versions_url e i version)). versionName entry = version)
        \<longrightarrow> (\<exists>u. find_component_version e comp_name (Some i) version = Inr (Some u)))"
proof -
  let ?items = "kb_versions e (versions_url e i version)"
  have 1: "\<exists>entry\<in>set ?items. versionName entry = version \<and> href entry = url"
    if "find_component_version e comp_name (Some i) version = Inr (Some url)"
    using that first_exact_Some [of version ?items url]
    by (simp add: find_component_version_def)
  have 2: "find_component_version e comp_name (Some i) version = Inr None"
    if "\<forall>entry\<in>set ?items. versionName entry \<noteq> version"
    using that first_exact_None [of version ?items]
    by (simp add: find_component_version_def)
  have 3: "\<exists>u. find_component_version e comp_name (Some i) version = Inr (Some u)"
    if "\<exists>entry\<in>set ?items. versionName entry = version"
  proof -
    have "first_exact version ?items \<noteq> None"
      using that first_exact_None [of version ?items] by blast
    then show ?thesis by (auto simp: find_component_version_def)
  qed
  show ?thesis using 1 2 3 by blast
qed

lemma example_urls:
  "versions_url example_env ''id1'' ''1.0+1''
     = ''https://bd/api/components/id1/versions?q=versionName:1.0_1&limit=100''"
  "versions_url example_env ''id1'' ''2.0+1''
     = ''https://bd/api/components/id1/versions?q=versionName:2.0_1&limit=100''"
  by (simp_all add: versions_url_def example_env_def safe_version_def)

theorem find_component_version_exact_witness:
  "find_component_version example_env ''fmt'' (Some ''id1'') ''1.0+1''
     = Inr (Some ''https://bd/api/components/id1/versions/b'')
   \<and> find_component_version example_env ''fmt'' (Some ''id1'') ''2.0+1'' = Inr None
   \<and> kb_versions example_env (versions_url example_env ''id1'' ''2.0+1'')
       = [\<lparr>versionName = ''2.0-1'', href = ''https://bd/api/components/id1/versions/c''\<rparr>]"
proof -
  have k1: "kb_versions example_env (versions_url example_env ''id1'' ''1.0+1'')
      = [\<lparr>versionName = ''1.0-1'', href = ''https://bd/api/components/id1/versions/a''\<rparr>,
         \<lparr>versionName = ''1.0+1'', href = ''https://bd/api/components/id1/versions/b''\<rparr>]"
    unfolding example_urls by (simp add: example_env_def example_kb_def)
  have k2: "kb_versions example_env (versions_url example_env ''id1'' ''2.0+1'')
      = [\<lparr>versionName = ''2.0-1'', href = ''https://bd/api/components/id1/versions/c''\<rparr>]"
    unfolding example_urls by (simp add: example_env_def example_kb_def)
  have f1: "find_component_version example_env ''fmt'' (Some ''id1'') ''1.0+1''
     = Inr (Some ''https://bd/api/components/id1/versions/b'')"
    by (simp add: find_component_version_def k1)
  show ?thesis
    using find_component_version_exact
            [of example_env "''fmt''" "''id1''" "''1.0+1''"
                "''https://bd/api/components/id1/versions/b''"]
          find_component_version_exact
            [of example_env "''fmt''" "''id1''" "''2.0+1''" "[]"]
          f1 k1 k2
    by simp
qed


subsection \<open>Fallback versions\<close>

lemma canon_rc1: "canonicalize_version n i ''3.0-rc1'' True st = (''3.0-rc1'', st)"
proof -
  have v: "v_re_match ''3.0-rc1'' = None"
    by (simp add: v_re_match_def is_dot_digit_def is_digit_def at_dollar_def)
  have s: "strip_v ''3.0-rc1'' = ''3.0-rc1''" by (simp add: strip_v_def v)
  have d: "date_re_match ''3.0-rc1'' = None"
    by (simp add: date_re_match_def is_digit_def)
  have h: "heuristics n ''3.0-rc1'' = (''3.0-rc1'', ''3.0-rc1'')"
    by (simp add: heuristics_def d)
  show ?thesis
    unfolding canon_save_eq s h by (simp add: v save_alt_def)
qed

text \<open>
  Claim C4. A fallback from \<^verbatim>\<open>3.0\<close> to \<^verbatim>\<open>3.0-rc1\<close> is configured for the id, the
  bill of materials does not list \<^verbatim>\<open>3.0\<close> for it, and the Knowledgebase has neither
  \<^verbatim>\<open>3.0\<close> nor one of its alternates. Then, if the Knowledgebase has \<^verbatim>\<open>3.0-rc1\<close>,
  \<open>fallback_version_if_necessary\<close> returns \<^verbatim>\<open>3.0-rc1\<close>; if it has not, the run
  ends with \<^verbatim>\<open>sys.exit(2)\<close>. Whether the bill of materials lists \<^verbatim>\<open>3.0-rc1\<close>
  plays no role.
\<close>

theorem fallback_resolution:
  assumes "bd_comp_version_fallbacks st (ver_key comp_id ''3.0'') = Some ''3.0-rc1''"
      and "\<not> bom_has_canonical st comp_id ''3.0''"
      and "find_canonical_component_version e comp_name comp_id ''3.0'' st = (Inr None, st1)"
  shows "(find_canonical_component_version e comp_name comp_id ''3.0-rc1'' st1
            = (Inr (Some url), st2) \<longrightarrow>
          fallback_version_if_necessary e comp_name comp_id ''3.0'' st
            = (Inr ''3.0-rc1'',
               log INFO (''Using canonical fallback version 3.0-rc1 for component ''
                           @ comp_name) st2))
       \<and> (find_canonical_component_version e comp_name comp_id ''3.0-rc1'' st1
            = (Inr None, st2) \<longrightarrow>
          fst (fallback_version_if_necessary e comp_name comp_id ''3.0'' st)
            = Inl (SysExit 2))"
  using assms by (simp add: fallback_version_if_necessary_def canon_rc1)

lemma example_lookups:
  "find_component_version example_env n (Some ''id1'') ''3.0'' = Inr None"
  "find_component_version example_env n (Some ''id1'') ''3.0-rc1''
     = Inr (Some ''https://bd/api/components/id1/versions/d'')"
  "find_component_version example_env n (Some ''id2'') ''3.0'' = Inr None"
  "find_component_version example_env n (Some ''id2'') ''3.0-rc1'' = Inr None"
  "find_component_version example_env n (Some ''id1'') ''4.0''
     = Inr (Some ''https://bd/api/components/id9/versions/e'')"
  by (simp_all add: find_component_version_def versions_url_def safe_version_def
        example_env_def example_kb_def)

lemma example_no_alts: "bd_alt_canonical_versions example_state k = None"
  by (simp add: example_state_def init_state_def)

theorem fallback_resolution_witness:
  "fallback_version_if_necessary example_env ''lib'' (Some ''id1'') ''3.0'' example_state
     = (Inr ''3.0-rc1'',
        log INFO ''Using canonical fallback version 3.0-rc1 for component lib'' example_state)
   \<and> fst (fallback_version_if_necessary example_env ''lib'' (Some ''id2'') ''3.0''
            example_state) = Inl (SysExit 2)"
proof -
  have fb: "bd_comp_version_fallbacks example_state (ver_key (Some ''id1'') ''3.0'')
              = Some ''3.0-rc1''"
       "bd_comp_version_fallbacks example_state (ver_key (Some ''id2'') ''3.0'')
              = Some ''3.0-rc1''"
    by (simp_all add: example_state_def ver_key_def fmt_id_def)
  have bom: "\<not> bom_has_canonical example_state (Some ''id1'') ''3.0''"
            "\<not> bom_has_canonical example_state (Some ''id2'') ''3.0''"
    by (simp_all add: bom_has_canonical_def example_state_def init_state_def)
  have m1: "find_canonical_component_version example_env ''lib'' (Some ''id1'') ''3.0''
              example_state = (Inr None, example_state)"
    by (simp add: find_canonical_component_version_def example_lookups example_no_alts)
  have h1: "find_canonical_component_version example_env ''lib'' (Some ''id1'') ''3.0-rc1''
              example_state
              = (Inr (Some ''https://bd/api/components/id1/versions/d''), example_state)"
    by (simp add: find_canonical_component_version_def example_lookups)
  have m2: "find_canonical_component_version example_env ''lib'' (Some ''id2'') ''3.0''
              example_state = (Inr None, example_state)"
    by (simp add: find_canonical_component_version_def example_lookups example_no_alts)
  have h2: "find_canonical_component_version example_env ''lib'' (Some ''id2'') ''3.0-rc1''
              example_state = (Inr None, example_state)"
    by (simp add: find_canonical_component_version_def example_lookups example_no_alts)
  show ?thesis
    using fallback_resolution [OF fb(1) bom(1) m1,
            of "''https://bd/api/components/id1/versions/d''" example_state]
          fallback_resolution [OF fb(2) bom(2) m2, of "[]" example_state]
          h1 h2
    by simp
qed

subsection \<open>A version found under another component id\<close>

text \<open>
  Claim C8. When the URL found for a version to add does not contain the expected
  component id, \<open>add_component_version\<close> logs the mismatch at level FATAL and goes
  on: in a dry run it logs that nothing is sent, otherwise it sends the request that
  adds the URL. No exit is taken; the call fails only if the server rejects that
  request.
\<close>

theorem id_mismatch_not_fatal:
  assumes "find_canonical_component_version e comp_name (Some i) version
             (log INFO (adding_msg comp_name (Some i) version) st)
             = (Inr (Some url), st1)"
      and "\<not> is_substring i url"
  shows "trace (snd (add_component_version e comp_name (Some i) version st))
           = trace st1 @ [Log FATAL (mismatch_msg (Some i) comp_name version url),
                          if dryrun e then Log INFO ''DRYRUN: not updating Black Duck''
                          else HttpPost (pv_components_url e) url]
       \<and> fst (add_component_version e comp_name (Some i) version st)
           = (if dryrun e \<or> request_ok e (HttpPost (pv_components_url e) url)
              then Inr () else Inl HTTPError)"
  using assms
  by (simp add: add_component_version_def post_component_def log_def request_def Let_def)

theorem id_mismatch_not_fatal_witness:
  "trace (snd (add_component_version example_env ''lib'' (Some ''id1'') ''4.0'' init_state))
     = [Log INFO (adding_msg ''lib'' (Some ''id1'') ''4.0''),
        Log FATAL (mismatch_msg (Some ''id1'') ''lib'' ''4.0''
                     ''https://bd/api/components/id9/versions/e''),
        HttpPost ''https://bd/api/projects/p/versions/v/components''
                 ''https://bd/api/components/id9/versions/e'']
   \<and> fst (add_component_version example_env ''lib'' (Some ''id1'') ''4.0'' init_state)
       = Inr ()"
proof -
  have f: "find_canonical_component_version example_env ''lib'' (Some ''id1'') ''4.0''
             (log INFO (adding_msg ''lib'' (Some ''id1'') ''4.0'') init_state)
             = (Inr (Some ''https://bd/api/components/id9/versions/e''),
                log INFO (adding_msg ''lib'' (Some ''id1'') ''4.0'') init_state)"
    by (simp add: find_canonical_component_version_def example_lookups)
  have n: "\<not> is_substring ''id1'' ''https://bd/api/components/id9/versions/e''"
    by simp
  have e: "\<not> dryrun example_env"
          "pv_components_url example_env = ''https://bd/api/projects/p/versions/v/components''"
          "\<And>ev. request_ok example_env ev"
    by (simp_all add: example_env_def)
  show ?thesis
    using id_mismatch_not_fatal [OF f n]
    by (simp add: log_def init_state_def e)
qed

subsection \<open>The inventory built from the manifests\<close>

lemma add_alt_frame:
  "manifest (add_alt_canonical_version i c a st) = manifest st"
  "bd_comp_id_aliases (add_alt_canonical_version i c a st) = bd_comp_id_aliases st"
  by (simp_all add: add_alt_canonical_version_def Let_def)

lemma save_alt_frame:
  "manifest (save_alt vm i c a st) = manifest st"
  "bd_comp_id_aliases (save_alt vm i c a st) = bd_comp_id_aliases st"
  by (simp_all add: save_alt_def Let_def add_alt_frame)

lemma canon_frame:
  "manifest (snd (canonicalize_version n i v b st)) = manifest st"
  "bd_comp_id_aliases (snd (canonicalize_version n i v b st)) = bd_comp_id_aliases st"
  by (cases b; simp add: canon_save_eq canon_no_save_eq save_alt_frame)+

lemma log_frame:
  "manifest (log lv msg st) = manifest st"
  "bd_comp_id_aliases (log lv msg st) = bd_comp_id_aliases st"
  by (simp_all add: log_def)

lemma probe_alts_frame:
  "manifest (snd (probe_alts e n i alts st)) = manifest st
   \<and> bd_comp_id_aliases (snd (probe_alts e n i alts st)) = bd_comp_id_aliases st"
  by (induction alts) (auto simp: log_frame split: sum.splits option.splits)

lemma find_canonical_frame:
  "manifest (snd (find_canonical_component_version e n i v st)) = manifest st
   \<and> bd_comp_id_aliases (snd (find_canonical_component_version e n i v st))
       = bd_comp_id_aliases st"
  by (auto simp: find_canonical_component_version_def probe_alts_frame
        split: sum.splits option.splits)

lemma fallback_frame:
  "manifest (snd (fallback_version_if_necessary e n i v st)) = manifest st
   \<and> bd_comp_id_aliases (snd (fallback_version_if_necessary e n i v st))
       = bd_comp_id_aliases st"
proof (cases "bd_comp_version_fallbacks st (ver_key i v)")
  case None
  then show ?thesis by (simp add: fallback_version_if_necessary_def)
next
  case (Some fb)
  show ?thesis
  proof (cases "bom_has_canonical st i v")
    case True
    then show ?thesis using Some by (simp add: fallback_version_if_necessary_def)
  next
    case False
    obtain r1 s1 where f1: "find_canonical_component_version e n i v st = (r1, s1)"
      by (cases "find_canonical_component_version e n i v st")
    have k1: "manifest s1 = manifest st \<and> bd_comp_id_aliases s1 = bd_comp_id_aliases st"
      using find_canonical_frame [of e n i v st] f1 by simp
    obtain c s2 where cv: "canonicalize_version n i fb True s1 = (c, s2)"
      by (cases "canonicalize_version n i fb True s1")
    have k2: "manifest s2 = manifest s1 \<and> bd_comp_id_aliases s2 = bd_comp_id_aliases s1"
      using canon_frame [of n i fb True s1] cv by simp
    obtain r3 s3 where f3: "find_canonical_component_version e n i c s2 = (r3, s3)"
      by (cases "find_canonical_component_version e n i c s2")
    have k3: "manifest s3 = manifest s2 \<and> bd_comp_id_aliases s3 = bd_comp_id_aliases s2"
      using find_canonical_frame [of e n i c s2] f3 by simp
    show ?thesis
      using Some False f1 cv f3 k1 k2 k3
      by (simp add: fallback_version_if_necessary_def log_frame
            split: sum.splits option.splits)
  qed
qed

lemma add_versions_frame:
  "manifest (snd (add_versions e n i vs st)) = manifest st
   \<and> bd_comp_id_aliases (snd (add_versions e n i vs st)) = bd_comp_id_aliases st"
proof (induction vs arbitrary: st)
  case Nil
  show ?case by simp
next
  case (Cons v vs)
  obtain c s1 where cv: "canonicalize_version n i v True st = (c, s1)"
    by (cases "canonicalize_version n i v True st")
  obtain r s2 where fb: "fallback_version_if_necessary e n i c s1 = (r, s2)"
    by (cases "fallback_version_if_necessary e n i c s1")
  have 1: "manifest s1 = manifest st \<and> bd_comp_id_aliases s1 = bd_comp_id_aliases st"
    using canon_frame [of n i v True st] cv by simp
  have 2: "manifest s2 = manifest s1 \<and> bd_comp_id_aliases s2 = bd_comp_id_aliases s1"
    using fallback_frame [of e n i c s1] fb by simp
  show ?case
    using cv fb 1 2 Cons.IH [of s2]
    by (auto split: sum.splits prod.splits)
qed

lemma translate_id_cong:
  "bd_comp_id_aliases st' = bd_comp_id_aliases st \<Longrightarrow> translate_id st' = translate_id st"
  by (rule ext) (simp add: translate_id_def split: option.splits)

lemma add_component_eq:
  "add_component e n cd st =
     (case add_versions e (lower (case cd_bd_name cd of None \<Rightarrow> n | Some x \<Rightarrow> x))
             (translate_id st (cd_bd_id cd)) (cd_versions cd) st of
        (Inl err, s1) \<Rightarrow> (Inl err, s1)
      | (Inr vers, s1) \<Rightarrow>
          (Inr (), store_manifest (translate_id st (cd_bd_id cd))
                     (lower (case cd_bd_name cd of None \<Rightarrow> n | Some x \<Rightarrow> x)) vers
                     (cd_license_approved cd) s1))"
  by (simp add: add_component_def Let_def)

lemma store_manifest_frame:
  "bd_comp_id_aliases (store_manifest i n vs l st) = bd_comp_id_aliases st"
  by (simp add: store_manifest_def Let_def)

lemma store_manifest_lookup:
  "map_of (manifest (store_manifest i n vs l st)) k =
     (if k = i
      then Some \<lparr>versions = fold set_add vs (case map_of (manifest st) i of
                                                None \<Rightarrow> [] | Some r \<Rightarrow> versions r),
                 bd_name = n, license_approved = l\<rparr>
      else map_of (manifest st) k)"
  by (simp add: store_manifest_def Let_def update_conv')

lemma add_component_aliases:
  "bd_comp_id_aliases (snd (add_component e n cd st)) = bd_comp_id_aliases st"
proof -
  define N where "N = lower (case cd_bd_name cd of None \<Rightarrow> n | Some x \<Rightarrow> x)"
  define I where "I = translate_id st (cd_bd_id cd)"
  obtain r s1 where av: "add_versions e N I (cd_versions cd) st = (r, s1)"
    by (cases "add_versions e N I (cd_versions cd) st")
  have k: "bd_comp_id_aliases s1 = bd_comp_id_aliases st"
    using add_versions_frame [of e N I "cd_versions cd" st] av by simp
  show ?thesis
  proof (cases r)
    case (Inl err)
    then show ?thesis
      using av k unfolding add_component_eq N_def [symmetric] I_def [symmetric] by simp
  next
    case (Inr vers)
    then show ?thesis
      using av k unfolding add_component_eq N_def [symmetric] I_def [symmetric]
      by (simp add: store_manifest_frame)
  qed
qed

lemma add_component_manifest:
  assumes "add_component e n cd st = (Inr (), st')"
  shows "map_option license_approved (map_of (manifest st') (translate_id st (cd_bd_id cd)))
           = Some (cd_license_approved cd)"
    and "k \<noteq> translate_id st (cd_bd_id cd) \<Longrightarrow> map_of (manifest st') k = map_of (manifest st) k"
proof -
  define N where "N = lower (case cd_bd_name cd of None \<Rightarrow> n | Some x \<Rightarrow> x)"
  define I where "I = translate_id st (cd_bd_id cd)"
  obtain r s1 where av: "add_versions e N I (cd_versions cd) st = (r, s1)"
    by (cases "add_versions e N I (cd_versions cd) st")
  have m: "manifest s1 = manifest st"
    using add_versions_frame [of e N I "cd_versions cd" st] av by simp
  have ac: "(case r of Inl err \<Rightarrow> (Inl err, s1)
             | Inr vers \<Rightarrow> (Inr (), store_manifest I N vers (cd_license_approved cd) s1))
            = (Inr (), st')"
    using assms av unfolding add_component_eq N_def [symmetric] I_def [symmetric] by simp
  obtain vers where r: "r = Inr vers" using ac by (cases r) auto
  have st': "st' = store_manifest I N vers (cd_license_approved cd) s1"
    using ac r by simp
  show "map_option license_approved (map_of (manifest st') (translate_id st (cd_bd_id cd)))
           = Some (cd_license_approved cd)"
    unfolding st' I_def [symmetric] by (simp add: store_manifest_lookup)
  show "map_of (manifest st') k = map_of (manifest st) k"
    if "k \<noteq> translate_id st (cd_bd_id cd)"
    using that m unfolding st' I_def [symmetric] by (simp add: store_manifest_lookup)
qed

lemma add_components_aliases:
  "bd_comp_id_aliases (snd (add_components e xs st)) = bd_comp_id_aliases st"
proof (induction xs arbitrary: st)
  case Nil
  show ?case by simp
next
  case (Cons x xs)
  obtain n cd where x: "x = (n, cd)" by (cases x)
  obtain r s1 where ac: "add_component e n cd st = (r, s1)"
    by (cases "add_component e n cd st")
  have "bd_comp_id_aliases s1 = bd_comp_id_aliases st"
    using add_component_aliases [of e n cd st] ac by simp
  then show ?case
    using x ac Cons.IH [of s1] by (auto split: sum.splits)
qed

lemma add_components_Cons_ok:
  assumes "add_components e ((n, cd) # xs) st = (Inr (), st')"
  obtains s1 where "add_component e n cd st = (Inr (), s1)"
    and "add_components e xs s1 = (Inr (), st')"
proof -
  obtain r s1 where ac: "add_component e n cd st = (r, s1)"
    by (cases "add_component e n cd st")
  show thesis
  proof (cases r)
    case (Inl err)
    have "add_components e ((n, cd) # xs) st = (Inl err, s1)"
      by (simp add: ac Inl)
    then show thesis using assms by simp
  next
    case (Inr u)
    have "add_components e ((n, cd) # xs) st = add_components e xs s1"
      by (simp add: ac Inr)
    then have "add_components e xs s1 = (Inr (), st')" using assms by simp
    moreover have "add_component e n cd st = (Inr (), s1)" using ac Inr by simp
    ultimately show thesis using that by blast
  qed
qed

lemma add_components_keeps:
  assumes "add_components e xs st = (Inr (), st')"
      and "\<forall>x\<in>set xs. translate_id st (cd_bd_id (snd x)) \<noteq> k"
  shows "map_of (manifest st') k = map_of (manifest st) k"
  using assms
proof (induction xs arbitrary: st)
  case Nil
  then show ?case by simp
next
  case (Cons x xs)
  obtain n cd where x: "x = (n, cd)" by (cases x)
  obtain s1 where ac: "add_component e n cd st = (Inr (), s1)"
    and rest: "add_components e xs s1 = (Inr (), st')"
    using Cons.prems(1) unfolding x by (rule add_components_Cons_ok)
  have "bd_comp_id_aliases s1 = bd_comp_id_aliases st"
    using add_component_aliases [of e n cd st] by (simp add: ac)
  then have al: "translate_id s1 = translate_id st" by (rule translate_id_cong)
  have k: "k \<noteq> translate_id st (cd_bd_id cd)" using Cons.prems(2) by (auto simp: x)
  have 1: "map_of (manifest s1) k = map_of (manifest st) k"
    using ac k by (rule add_component_manifest(2))
  have p2: "\<forall>x\<in>set xs. translate_id s1 (cd_bd_id (snd x)) \<noteq> k"
    unfolding al using Cons.prems(2) by simp
  have 2: "map_of (manifest st') k = map_of (manifest s1) k"
    using rest p2 by (rule Cons.IH)
  show ?case using 1 2 by (rule trans [rotated])
qed

lemma add_components_last:
  assumes "add_components e (pre @ (n, cd) # post) st = (Inr (), st')"
      and "\<forall>x\<in>set post. translate_id st (cd_bd_id (snd x)) \<noteq> translate_id st (cd_bd_id cd)"
  shows "map_option license_approved (map_of (manifest st') (translate_id st (cd_bd_id cd)))
           = Some (cd_license_approved cd)"
  using assms
proof (induction pre arbitrary: st)
  case Nil
  obtain s1 where ac: "add_component e n cd st = (Inr (), s1)"
    and rest: "add_components e post s1 = (Inr (), st')"
    using Nil.prems(1) unfolding append_Nil by (rule add_components_Cons_ok)
  have "bd_comp_id_aliases s1 = bd_comp_id_aliases st"
    using add_component_aliases [of e n cd st] by (simp add: ac)
  then have al: "translate_id s1 = translate_id st" by (rule translate_id_cong)
  have p2: "\<forall>x\<in>set post. translate_id s1 (cd_bd_id (snd x))
                \<noteq> translate_id st (cd_bd_id cd)"
    unfolding al using Nil.prems(2) .
  have "map_of (manifest st') (translate_id st (cd_bd_id cd))
          = map_of (manifest s1) (translate_id st (cd_bd_id cd))"
    using rest p2 by (rule add_components_keeps)
  then show ?case
    using add_component_manifest(1) [OF ac] by simp
next
  case (Cons x pre)
  obtain n0 cd0 where x: "x = (n0, cd0)" by (cases x)
  obtain s1 where ac: "add_component e n0 cd0 st = (Inr (), s1)"
    and rest: "add_components e (pre @ (n, cd) # post) s1 = (Inr (), st')"
    using Cons.prems(1) unfolding x append_Cons by (rule add_components_Cons_ok)
  have "bd_comp_id_aliases s1 = bd_comp_id_aliases st"
    using add_component_aliases [of e n0 cd0 st] by (simp add: ac)
  then have al: "translate_id s1 = translate_id st" by (rule translate_id_cong)
  have p2: "\<forall>x\<in>set post. translate_id s1 (cd_bd_id (snd x))
                \<noteq> translate_id s1 (cd_bd_id cd)"
    unfolding al using Cons.prems(2) .
  show ?case
    using Cons.IH [OF rest p2] unfolding al .
qed

text \<open>
  Claim C1, as amended. When a run of \<open>add_component\<close> calls succeeds, the
  \<^verbatim>\<open>license-approved\<close> stored for a component is the value of the last call for that
  component, as it is: true, false or \<open>None\<close>. Every call assigns the field, so an
  unspecified value of a later manifest replaces a specified value of an earlier one.
\<close>

theorem last_license_approved_wins:
  assumes "add_components e (pre @ (comp_name, cd) # post) st = (Inr (), st')"
      and "\<forall>x\<in>set post. translate_id st (cd_bd_id (snd x)) \<noteq> translate_id st (cd_bd_id cd)"
  shows "map_option license_approved (map_of (manifest st') (translate_id st (cd_bd_id cd)))
           = Some (cd_license_approved cd)"
  using assms by (rule add_components_last)


lemmas run_simps =
  add_component_def translate_id_def init_state_def canon_save_eq strip_v_def
  v_re_match_def heuristics_def is_dot_digit_def is_digit_def at_dollar_def save_alt_def
  add_alt_canonical_version_def fallback_version_if_necessary_def ver_key_def fmt_id_def
  store_manifest_def set_add_def lower_def lower_char_def Let_def

theorem last_license_approved_wins_witness:
  "fst (add_components example_env
          [(''fmt'', \<lparr>cd_versions = [''1.0''], cd_license_approved = None,
                      cd_bd_name = None, cd_bd_id = Some ''id3''\<rparr>),
           (''fmt'', \<lparr>cd_versions = [''1.1''], cd_license_approved = Some False,
                      cd_bd_name = None, cd_bd_id = Some ''id3''\<rparr>)] init_state) = Inr ()
   \<and> map_option license_approved
       (map_of (manifest (snd (add_components example_env
          [(''fmt'', \<lparr>cd_versions = [''1.0''], cd_license_approved = None,
                      cd_bd_name = None, cd_bd_id = Some ''id3''\<rparr>),
           (''fmt'', \<lparr>cd_versions = [''1.1''], cd_license_approved = Some False,
                      cd_bd_name = None, cd_bd_id = Some ''id3''\<rparr>)] init_state)))
          (Some ''id3'')) = Some (Some False)"
proof -
  let ?a = "(''fmt'', \<lparr>cd_versions = [''1.0''], cd_license_approved = None,
                      cd_bd_name = None, cd_bd_id = Some ''id3''\<rparr>)"
  let ?cd = "\<lparr>cd_versions = [''1.1''], cd_license_approved = Some False,
                      cd_bd_name = None, cd_bd_id = Some ''id3''\<rparr>"
  let ?run = "add_components example_env [?a, (''fmt'', ?cd)] init_state"
  have f: "fst ?run = Inr ()"
    by (simp add: run_simps)
  have eq: "add_components example_env ([?a] @ (''fmt'', ?cd) # []) init_state
              = (Inr (), snd ?run)"
    using f by (simp add: prod_eq_iff)
  have t: "translate_id init_state (cd_bd_id ?cd) = Some ''id3''"
    by (simp add: translate_id_def init_state_def)
  have p: "\<forall>x\<in>set []. translate_id init_state (cd_bd_id (snd x))
             \<noteq> translate_id init_state (cd_bd_id ?cd)"
    by simp
  show ?thesis
    using last_license_approved_wins [OF eq p] f unfolding t by simp
qed

text \<open>
  The claim C1 as stated fails in its second half: a first manifest approves the
  licence of a component, a second one lists the component without the key, and the
  stored value is \<open>None\<close> afterwards.
\<close>

theorem unspecified_overwrites_specified:
  "fst (add_components example_env
          [(''fmt'', \<lparr>cd_versions = [''1.0''], cd_license_approved = Some True,
                      cd_bd_name = None, cd_bd_id = Some ''id3''\<rparr>),
           (''fmt'', \<lparr>cd_versions = [''1.1''], cd_license_approved = None,
                      cd_bd_name = None, cd_bd_id = Some ''id3''\<rparr>)] init_state) = Inr ()
   \<and> map_of (manifest (snd (add_components example_env
          [(''fmt'', \<lparr>cd_versions = [''1.0''], cd_license_approved = Some True,
                      cd_bd_name = None, cd_bd_id = Some ''id3''\<rparr>)] init_state)))
          (Some ''id3'')
       = Some \<lparr>versions = [''1.0''], bd_name = ''fmt'', license_approved = Some True\<rparr>
   \<and> map_of (manifest (snd (add_components example_env
          [(''fmt'', \<lparr>cd_versions = [''1.0''], cd_license_approved = Some True,
                      cd_bd_name = None, cd_bd_id = Some ''id3''\<rparr>),
           (''fmt'', \<lparr>cd_versions = [''1.1''], cd_license_approved = None,
                      cd_bd_name = None, cd_bd_id = Some ''id3''\<rparr>)] init_state)))
          (Some ''id3'')
       = Some \<lparr>versions = [''1.0'', ''1.1''], bd_name = ''fmt'', license_approved = None\<rparr>"
  by (simp add: run_simps)

subsection \<open>Equal inventories\<close>

lemma diff_versions_same: "set a = set b \<Longrightarrow> diff_versions t a b = []"
  by (simp add: diff_versions_def Let_def filter_empty_conv)

lemma diff_rec_same: "py_rec_eq r1 r2 \<Longrightarrow> diff_rec k r1 r2 = []"
  by (simp add: diff_rec_def py_rec_eq_def diff_versions_same diff_scalar_def)

lemma py_dict_eq_first:
  assumes "py_dict_eq first second" and "(k, r1) \<in> set first"
  obtains r2 where "map_of second k = Some r2" and "py_rec_eq r1 r2"
proof -
  have "case map_of second k of None \<Rightarrow> False | Some r2 \<Rightarrow> py_rec_eq r1 r2"
    using assms by (auto simp: py_dict_eq_def list_all_iff)
  then show thesis using that by (cases "map_of second k") auto
qed

lemma py_dict_eq_second:
  assumes "py_dict_eq first second" and "(k, r2) \<in> set second"
  shows "map_of first k \<noteq> None"
  using assms by (auto simp: py_dict_eq_def list_all_iff)

lemma dictdiffer_diff_same:
  assumes "py_dict_eq first second"
  shows "dictdiffer_diff first second = []"
proof -
  have 1: "concat (map (\<lambda>(k, r1). case map_of second k of
                               None \<Rightarrow> [] | Some r2 \<Rightarrow> diff_rec k r1 r2) first) = []"
  proof -
    have "(case map_of second k of None \<Rightarrow> [] | Some r2 \<Rightarrow> diff_rec k r1 r2) = []"
      if mem: "(k, r1) \<in> set first" for k r1
    proof -
      obtain r2 where "map_of second k = Some r2" and "py_rec_eq r1 r2"
        using assms mem by (rule py_dict_eq_first)
      then show ?thesis by (simp add: diff_rec_same)
    qed
    then show ?thesis by (auto simp: concat_eq_Nil_conv)
  qed
  have 2: "filter (\<lambda>(k, r). map_of first k = None) second = []"
    using py_dict_eq_second [OF assms] by (auto simp: filter_empty_conv)
  have 3: "filter (\<lambda>(k, r). map_of second k = None) first = []"
  proof -
    have "map_of second k \<noteq> None" if "(k, r1) \<in> set first" for k r1
      using py_dict_eq_first [OF assms that] by auto
    then show ?thesis by (auto simp: filter_empty_conv)
  qed
  show ?thesis
    unfolding dictdiffer_diff_def 1 2 3 by simp
qed

lemma py_rec_eq_refl: "py_rec_eq r r"
  by (simp add: py_rec_eq_def)

lemma py_dict_eq_refl:
  assumes "distinct (map fst inventory)"
  shows "py_dict_eq inventory inventory"
proof -
  have "map_of inventory k = Some r" if "(k, r) \<in> set inventory" for k r
    using assms that by simp
  then show ?thesis
    by (auto simp: py_dict_eq_def list_all_iff py_rec_eq_refl)
qed

text \<open>
  Claim C3. The difference of an inventory with itself is empty. More generally, when
  \<open>bom_comp_map\<close> and \<open>manifest\<close> are equal as Python dicts, the difference is
  empty and \<open>perform\<close> runs its loop zero times: it calls none of the three changing
  functions, \<open>actions_taken\<close> stays 0, and the only record it logs is that no update
  is needed.
\<close>

theorem diff_of_equal_inventories_empty:
  "(distinct (map fst inventory) \<longrightarrow> dictdiffer_diff inventory inventory = [])
   \<and> (py_dict_eq (bom_comp_map st) (manifest st) \<longrightarrow>
        dictdiffer_diff (bom_comp_map st) (manifest st) = []
      \<and> perform e st
          = (Inr 0, log INFO ''Current components match manifest - no updates needed!'' st))"
proof -
  have 1: "dictdiffer_diff inventory inventory = []" if "distinct (map fst inventory)"
    using that by (intro dictdiffer_diff_same py_dict_eq_refl)
  have 2: "dictdiffer_diff (bom_comp_map st) (manifest st) = []"
    if "py_dict_eq (bom_comp_map st) (manifest st)"
    using that by (rule dictdiffer_diff_same)
  have 3: "perform e st
          = (Inr 0, log INFO ''Current components match manifest - no updates needed!'' st)"
    if "py_dict_eq (bom_comp_map st) (manifest st)"
    unfolding perform_def 2 [OF that] by simp
  show ?thesis using 1 2 3 by blast
qed

theorem diff_of_equal_inventories_empty_witness:
  "dictdiffer_diff
     [(Some ''id5'', \<lparr>versions = [''1.0'', ''2.0''], bd_name = ''fmt'',
                      license_approved = Some True\<rparr>),
      (Some ''id6'', \<lparr>versions = [''3.1''], bd_name = ''zlib'',
                      license_approved = Some False\<rparr>)]
     [(Some ''id5'', \<lparr>versions = [''1.0'', ''2.0''], bd_name = ''fmt'',
                      license_approved = Some True\<rparr>),
      (Some ''id6'', \<lparr>versions = [''3.1''], bd_name = ''zlib'',
                      license_approved = Some False\<rparr>)] = []
   \<and> trace (snd (perform example_env
        (init_state\<lparr>bom_comp_map :=
            [(Some ''id5'', \<lparr>versions = [''1.0'', ''2.0''], bd_name = ''fmt'',
                             license_approved = Some True\<rparr>),
             (Some ''id6'', \<lparr>versions = [''3.1''], bd_name = ''zlib'',
                             license_approved = Some False\<rparr>)],
          manifest :=
            [(Some ''id6'', \<lparr>versions = [''3.1''], bd_name = ''zlib'',
                             license_approved = Some False\<rparr>),
             (Some ''id5'', \<lparr>versions = [''2.0'', ''1.0''], bd_name = ''fmt'',
                             license_approved = Some True\<rparr>)]\<rparr>)))
       = [Log INFO ''Current components match manifest - no updates needed!'']"
proof -
  let ?i = "[(Some ''id5'', \<lparr>versions = [''1.0'', ''2.0''], bd_name = ''fmt'',
                      license_approved = Some True\<rparr>),
      (Some ''id6'', \<lparr>versions = [''3.1''], bd_name = ''zlib'',
                      license_approved = Some False\<rparr>)]"
  let ?st = "init_state\<lparr>bom_comp_map := ?i,
          manifest :=
            [(Some ''id6'', \<lparr>versions = [''3.1''], bd_name = ''zlib'',
                             license_approved = Some False\<rparr>),
             (Some ''id5'', \<lparr>versions = [''2.0'', ''1.0''], bd_name = ''fmt'',
                             license_approved = Some True\<rparr>)]\<rparr>"
  have d: "distinct (map fst ?i)" by simp
  have q: "py_dict_eq (bom_comp_map ?st) (manifest ?st)"
    by (auto simp: py_dict_eq_def py_rec_eq_def)
  show ?thesis
    using diff_of_equal_inventories_empty [of ?i ?st example_env] d q
    by (simp add: log_def init_state_def)
qed

end
